theory Spec2Isabelle
  imports
    Main
    "HOL-Library.Product_Lexorder"
    "HOL-Library.Option_ord"
    "HOL-Library.Char_ord"
    "HOL-Library.List_Lexorder"
    "HOL-Library.Sublist"
    "HOL-Library.Multiset"
begin

section \<open>Data model\<close>

text \<open>
  The program \<^verbatim>\<open>app_tres_niveles_accion.py\<close> keeps its tasks in a pandas
  \<^verbatim>\<open>DataFrame\<close> and persists them in the file \<^verbatim>\<open>registro_tareas.csv\<close>. What it
  only displays (titles, messages, the line of progress) is left out.

  A calendar date is a triple (year, month, day), ordered lexicographically. The only
  time of day that the program produces is midnight: \<^verbatim>\<open>pd.to_datetime(selected_date)\<close>
  is the \<^verbatim>\<open>Timestamp\<close> of the selected day at midnight, and \<^verbatim>\<open>read_csv\<close> makes
  such timestamps of the dates of the file. A \<^verbatim>\<open>Timestamp\<close> with another time of day
  is not modelled.
\<close>

type_synonym date = "nat \<times> nat \<times> nat"

text \<open>
  A cell of a data frame. \<open>Null\<close> stands for every missing value of pandas
  (\<^verbatim>\<open>None\<close>, \<^verbatim>\<open>NaN\<close>, \<^verbatim>\<open>NaT\<close>). \<open>DateC d\<close> is the \<^verbatim>\<open>Timestamp\<close> of the
  day \<open>d\<close> at midnight, as \<^verbatim>\<open>read_csv\<close> and \<^verbatim>\<open>pd.to_datetime\<close> make it, and
  \<open>DateObjC d\<close> is the \<^verbatim>\<open>datetime.date\<close> object of that day, as \<^verbatim>\<open>st.date_input\<close>
  returns it: the two are different values for pandas, and they are written differently.
  There is no cell for a floating-point number: a file with a column of them is not
  modelled (see \<open>read_csv\<close>).
\<close>

datatype cell =
    Null
  | IntC int
  | BoolC bool
  | StrC string
  | DateC date
  | DateObjC date

text \<open>
  A data frame: the column labels in order, and the rows in order, each row with its
  index label and one cell per column.
\<close>

record frame =
  columns :: "string list"
  rows :: "(nat \<times> cell list) list"

definition wf_frame :: "frame \<Rightarrow> bool" where
  "wf_frame df = list_all (\<lambda>ir. length (snd ir) = length (columns df)) (rows df)"

text \<open>
  The content of a CSV file: its records, each the list of its fields, the first record
  being the header. Quoting and line ends are below this level, and a blank line is no
  record. The store is the file \<^verbatim>\<open>CSV_PATH\<close>: \<open>None\<close> when it does not exist.
\<close>

type_synonym csv = "string list list"

type_synonym store = "csv option"

text \<open>
  The exceptions of the library calls. \<open>NotModelled\<close> is no exception of Python: it marks
  the inputs on which the model says nothing, because what pandas does there is outside of
  it (floating-point numbers, dates in another format than the program writes, an
  assignment that changes the type of a column).
\<close>

datatype error = EmptyDataError | ValueError | ParserError | KeyError | TypeError | NotModelled

section \<open>Text of a cell\<close>

text \<open>The position of a value in a list (the first, should it occur twice).\<close>

fun index_of :: "'a \<Rightarrow> 'a list \<Rightarrow> nat option" where
  "index_of x [] = None"
| "index_of x (y # ys) = (if x = y then Some 0 else map_option Suc (index_of x ys))"

text \<open>A decimal digit and its value.\<close>

definition digit_char :: "nat \<Rightarrow> char" where
  "digit_char n = ''0123456789'' ! (n mod 10)"

definition digit_val :: "char \<Rightarrow> nat option" where
  "digit_val c = index_of c ''0123456789''"

text \<open>Python's \<^verbatim>\<open>str\<close> of a non-negative integer, and of an integer.\<close>

function show_nat :: "nat \<Rightarrow> string" where
  "show_nat n = (if n < 10 then [digit_char n] else show_nat (n div 10) @ [digit_char n])"
  by pat_completeness auto
termination
  by (relation "measure id") auto

declare show_nat.simps [simp del]

definition show_int :: "int \<Rightarrow> string" where
  "show_int i = (if i < 0 then CHR ''-'' # show_nat (nat (- i)) else show_nat (nat i))"

text \<open>The value of a non-empty string of decimal digits.\<close>

fun nat_of_digits :: "nat \<Rightarrow> string \<Rightarrow> nat option" where
  "nat_of_digits acc [] = Some acc"
| "nat_of_digits acc (c # cs) =
     (case digit_val c of None \<Rightarrow> None | Some d \<Rightarrow> nat_of_digits (acc * 10 + d) cs)"

definition nat_of_text :: "string \<Rightarrow> nat option" where
  "nat_of_text s = (if s = [] then None else nat_of_digits 0 s)"

text \<open>The blanks of the tokenizer: space, tab, line feed, vertical tab, form feed, return.\<close>

definition is_space :: "char \<Rightarrow> bool" where
  "is_space c = (c \<in> set [CHR 0x20, CHR 0x09, CHR 0x0A, CHR 0x0B, CHR 0x0C, CHR 0x0D])"

definition strip :: "string \<Rightarrow> string" where
  "strip s = rev (dropWhile is_space (rev (dropWhile is_space s)))"

text \<open>
  The integer a field denotes for the tokenizer of \<^verbatim>\<open>read_csv\<close>: blanks around it, an
  optional sign, then digits.
\<close>

definition int_of_text :: "string \<Rightarrow> int option" where
  "int_of_text s =
     (case strip s of
        [] \<Rightarrow> None
      | c # cs \<Rightarrow>
          if c = CHR ''-'' then map_option (\<lambda>n. - int n) (nat_of_text cs)
          else if c = CHR ''+'' then map_option int (nat_of_text cs)
          else map_option int (nat_of_text (c # cs)))"

text \<open>
  \<^verbatim>\<open>%0kd\<close> for a number below \<open>10 ^ k\<close>: its \<open>k\<close> last decimal digits. Dates are
  written as \<^verbatim>\<open>%04d-%02d-%02d\<close> (ISO 8601).
\<close>

fun zpad :: "nat \<Rightarrow> nat \<Rightarrow> string" where
  "zpad 0 n = []"
| "zpad (Suc k) n = zpad k (n div 10) @ [digit_char n]"

fun iso_date :: "date \<Rightarrow> string" where
  "iso_date (y, m, d) = zpad 4 y @ ''-'' @ zpad 2 m @ ''-'' @ zpad 2 d"

definition leap_year :: "nat \<Rightarrow> bool" where
  "leap_year y = (y mod 4 = 0 \<and> (y mod 100 \<noteq> 0 \<or> y mod 400 = 0))"

definition days_in_month :: "nat \<Rightarrow> nat \<Rightarrow> nat" where
  "days_in_month y m =
     (if m = 2 then (if leap_year y then 29 else 28)
      else if m = 4 \<or> m = 6 \<or> m = 9 \<or> m = 11 then 30 else 31)"

text \<open>
  The days a \<^verbatim>\<open>Timestamp\<close> can hold: nanoseconds in 64 bits reach from 1677 to 2262; the
  model takes the whole years in between.
\<close>

fun valid_date :: "date \<Rightarrow> bool" where
  "valid_date (y, m, d) =
     (1678 \<le> y \<and> y \<le> 2261 \<and> 1 \<le> m \<and> m \<le> 12 \<and> 1 \<le> d \<and> d \<le> days_in_month y m)"

definition parse_date :: "string \<Rightarrow> date option" where
  "parse_date s =
     (if length s = 10 \<and> s ! 4 = CHR ''-'' \<and> s ! 7 = CHR ''-'' then
        (case (nat_of_text (take 4 s), nat_of_text (take 2 (drop 5 s)), nat_of_text (drop 8 s)) of
           (Some y, Some m, Some d) \<Rightarrow> if valid_date (y, m, d) then Some (y, m, d) else None
         | _ \<Rightarrow> None)
      else None)"

text \<open>
  The \<^verbatim>\<open>str\<close> of a \<^verbatim>\<open>Timestamp\<close> at midnight, and the fields of that form.
\<close>

definition iso_midnight :: "date \<Rightarrow> string" where
  "iso_midnight d = iso_date d @ '' 00:00:00''"

definition parse_midnight :: "string \<Rightarrow> date option" where
  "parse_midnight s = (if drop 10 s = '' 00:00:00'' then parse_date (take 10 s) else None)"

section \<open>The pandas calls of the program\<close>

text \<open>
  The program calls \<^verbatim>\<open>df.to_csv(CSV_PATH, index=False)\<close> and
  \<^verbatim>\<open>pd.read_csv(CSV_PATH, parse_dates=["fecha"])\<close>. Both are library code; what follows
  is their documented behaviour on the fields of the file, as far as the program depends
  on it.
\<close>

subsection \<open>Writing\<close>

text \<open>
  \<^verbatim>\<open>to_csv\<close> writes a missing value as the empty field (\<^verbatim>\<open>na_rep=''\<close>), and every other
  value as its \<^verbatim>\<open>str\<close>; the empty text is the empty field too. With \<^verbatim>\<open>index=False\<close>
  the index labels are not written.

  How a \<^verbatim>\<open>Timestamp\<close> is written depends on its column. A column that holds only
  timestamps and missing values has the type \<^verbatim>\<open>datetime64\<close>, and since all its times are
  midnight it is written as dates, year-month-day. A column that holds anything else
  beside (a \<^verbatim>\<open>datetime.date\<close> after \<^verbatim>\<open>pd.concat\<close>, a text) has the type
  \<^verbatim>\<open>object\<close>, and a \<^verbatim>\<open>Timestamp\<close> in it is written as its \<^verbatim>\<open>str\<close>, with the time
  of day. A \<^verbatim>\<open>datetime.date\<close> is always written as year-month-day.
\<close>

definition is_timestamp :: "cell \<Rightarrow> bool" where
  "is_timestamp c = (case c of DateC d \<Rightarrow> True | _ \<Rightarrow> False)"

definition datetime64 :: "cell list \<Rightarrow> bool" where
  "datetime64 cs = list_all (\<lambda>c. c = Null \<or> is_timestamp c) cs"

fun render_cell :: "bool \<Rightarrow> cell \<Rightarrow> string" where
  "render_cell dt Null = []"
| "render_cell dt (IntC i) = show_int i"
| "render_cell dt (BoolC b) = (if b then ''True'' else ''False'')"
| "render_cell dt (StrC s) = s"
| "render_cell dt (DateC d) = (if dt then iso_date d else iso_midnight d)"
| "render_cell dt (DateObjC d) = iso_date d"

definition to_csv :: "frame \<Rightarrow> csv" where
  "to_csv df =
     (let dts = map (\<lambda>j. datetime64 (map (\<lambda>ir. snd ir ! j) (rows df))) [0..<length (columns df)]
      in columns df # map (\<lambda>ir. map2 render_cell dts (snd ir)) (rows df))"

subsection \<open>Reading\<close>

text \<open>
  The fields \<^verbatim>\<open>read_csv\<close> takes for a missing value by default
  (\<^verbatim>\<open>keep_default_na=True\<close>): the empty field is the first of them.
\<close>

definition na_values :: "string list" where
  "na_values =
     [[], ''#N/A'', ''#N/A N/A'', ''#NA'', ''-1.#IND'', ''-1.#QNAN'', ''-NaN'', ''-nan'',
      ''1.#IND'', ''1.#QNAN'', ''<NA>'', ''N/A'', ''NA'', ''NULL'', ''NaN'', ''None'',
      ''n/a'', ''nan'', ''null'']"

definition is_na :: "string \<Rightarrow> bool" where
  "is_na f = (f \<in> set na_values)"

definition to_lower :: "char \<Rightarrow> char" where
  "to_lower c =
     (case map_of (zip ''ABCDEFGHIJKLMNOPQRSTUVWXYZ'' ''abcdefghijklmnopqrstuvwxyz'') c of
        None \<Rightarrow> c | Some l \<Rightarrow> l)"

text \<open>
  The fields taken for a boolean: the tokenizer compares a field with \<^verbatim>\<open>TRUE\<close> and
  \<^verbatim>\<open>FALSE\<close> without regard to case.
\<close>

definition is_true_text :: "string \<Rightarrow> bool" where
  "is_true_text f = (map to_lower f = ''true'')"

definition is_false_text :: "string \<Rightarrow> bool" where
  "is_false_text f = (map to_lower f = ''false'')"

definition is_bool_text :: "string \<Rightarrow> bool" where
  "is_bool_text f = (is_true_text f \<or> is_false_text f)"

definition is_int64_text :: "string \<Rightarrow> bool" where
  "is_int64_text f =
     (case int_of_text f of None \<Rightarrow> False | Some i \<Rightarrow> - (2 ^ 63) \<le> i \<and> i < 2 ^ 63)"

text \<open>
  The fields that are read as floating-point numbers. The tokenizer skips the blanks
  around the field and takes an optional sign, digits, an optional decimal point with
  digits (one digit at least before or after the point), and an optional exponent: the
  letter e, an optional sign, and one digit at least. Beside these, the spellings of
  infinity and of not-a-number count as numbers here, in any case and with blanks around.
  The recogniser only serves to set aside the columns that are read as floating-point
  numbers.
\<close>

definition is_digit :: "char \<Rightarrow> bool" where
  "is_digit c = (digit_val c \<noteq> None)"

definition drop_sign :: "string \<Rightarrow> string" where
  "drop_sign s =
     (case s of [] \<Rightarrow> [] | c # cs \<Rightarrow> if c = CHR ''+'' \<or> c = CHR ''-'' then cs else s)"

definition is_float_text :: "string \<Rightarrow> bool" where
  "is_float_text f =
     (let u = drop_sign (strip f);
          d1 = takeWhile is_digit u;
          r1 = dropWhile is_digit u;
          d2 = (case r1 of [] \<Rightarrow> [] | c # cs \<Rightarrow> if c = CHR ''.'' then takeWhile is_digit cs else []);
          r2 = (case r1 of [] \<Rightarrow> [] | c # cs \<Rightarrow> if c = CHR ''.'' then dropWhile is_digit cs else r1)
      in (d1 \<noteq> [] \<or> d2 \<noteq> []) \<and>
         (case r2 of
            [] \<Rightarrow> True
          | e # cs \<Rightarrow> (e = CHR ''e'' \<or> e = CHR ''E'') \<and> drop_sign cs \<noteq> [] \<and>
                     list_all is_digit (drop_sign cs)))"

definition is_numeric_text :: "string \<Rightarrow> bool" where
  "is_numeric_text f =
     (is_float_text f \<or>
      map to_lower (strip f) \<in> set [''inf'', ''+inf'', ''-inf'', ''infinity'', ''+infinity'',
                                       ''-infinity'', ''nan'', ''+nan'', ''-nan''])"

text \<open>
  The type of a column is inferred from all its fields: 64-bit integers when every field
  is one, floating point when every present field is a number, booleans when every present
  field is one, text otherwise. A column without a present field holds missing values
  only (\<open>KNull\<close>). A column that may be read as floating-point numbers is not modelled
  (\<open>KOther\<close>).

  A column named in \<^verbatim>\<open>parse_dates\<close> is not converted by the tokenizer. When every present
  field is an ISO date, year-month-day, it becomes a column of timestamps. pandas takes
  the format of the dates from the first present field and leaves the column as text when
  another field is not of that format: this is so for a column where dates stand beside
  dates with the time of midnight, which is what the program writes from its second day
  on. Every other column of dates (another format, a time of day, a day outside of the
  range of valid dates) is not modelled (\<open>KOther\<close>).
\<close>

datatype kind = KInt | KBool | KStr | KDate | KNull | KOther

definition infer_kind :: "string list \<Rightarrow> kind" where
  "infer_kind fs =
     (let vs = filter (\<lambda>f. \<not> is_na f) fs in
        if vs = [] then KNull
        else if length vs = length fs \<and> list_all is_int64_text vs then KInt
        else if list_all is_numeric_text vs then KOther
        else if list_all is_bool_text vs then KBool
        else KStr)"

definition date_kind :: "string list \<Rightarrow> kind" where
  "date_kind fs =
     (let vs = filter (\<lambda>f. \<not> is_na f) fs in
        if list_all (\<lambda>f. parse_date f \<noteq> None) vs then KDate
        else if list_ex (\<lambda>f. parse_date f \<noteq> None) vs \<and>
                list_all (\<lambda>f. parse_date f \<noteq> None \<or> parse_midnight f \<noteq> None) vs then KStr
        else KOther)"

definition column_kind :: "string list \<Rightarrow> string \<Rightarrow> string list \<Rightarrow> kind" where
  "column_kind parse_dates name fs =
     (if name \<in> set parse_dates then date_kind fs else infer_kind fs)"

text \<open>
  The cell that a field becomes in a column of a kind (\<open>read_csv\<close> below does not get
  here with a column of the kind \<open>KOther\<close>).
\<close>

definition parse_cell :: "kind \<Rightarrow> string \<Rightarrow> cell" where
  "parse_cell k f =
     (if is_na f then Null
      else case k of
          KInt \<Rightarrow> (case int_of_text f of Some i \<Rightarrow> IntC i | None \<Rightarrow> StrC f)
        | KBool \<Rightarrow> BoolC (is_true_text f)
        | KStr \<Rightarrow> StrC f
        | KDate \<Rightarrow> (case parse_date f of Some d \<Rightarrow> DateC d | None \<Rightarrow> StrC f)
        | KNull \<Rightarrow> Null
        | KOther \<Rightarrow> StrC f)"

text \<open>
  \<^verbatim>\<open>read_csv\<close>: a file without a header raises \<^verbatim>\<open>EmptyDataError\<close>; a column of
  \<^verbatim>\<open>parse_dates\<close> that the header does not have raises \<^verbatim>\<open>ValueError\<close> (Missing column
  provided to 'parse_dates'). A record shorter than the header is filled with missing
  values. When the first record is longer than the header, pandas takes its leading
  fields for the index labels of the rows: such a file is not modelled. A later record
  that is longer than the header raises \<^verbatim>\<open>ParserError\<close>. A file with a column that is
  not modelled is not modelled. The rows get the index labels 0, 1, 2, ... The labels of
  the columns are the fields of the header as they are (pandas renames a label that
  occurs again; \<open>load_data\<close> takes the first of them in both cases).
\<close>

definition read_csv :: "csv \<Rightarrow> string list \<Rightarrow> error + frame" where
  "read_csv file parse_dates =
     (case file of
        [] \<Rightarrow> Inl EmptyDataError
      | header # body \<Rightarrow>
          if list_ex (\<lambda>c. c \<notin> set header) parse_dates then Inl ValueError
          else if list_ex (\<lambda>r. length header < length r) (take 1 body) then Inl NotModelled
          else if list_ex (\<lambda>r. length header < length r) body then Inl ParserError
          else
            let n = length header;
                padded = map (\<lambda>r. r @ replicate (n - length r) []) body;
                kinds = map (\<lambda>j. column_kind parse_dates (header ! j) (map (\<lambda>r. r ! j) padded)) [0..<n]
            in if KOther \<in> set kinds then Inl NotModelled
               else Inr \<lparr>columns = header,
                         rows = enumerate 0 (map (\<lambda>r. map2 parse_cell kinds r) padded)\<rparr>)"

subsection \<open>Data frames\<close>

text \<open>\<^verbatim>\<open>pd.DataFrame(columns=cols)\<close>: no rows.\<close>

definition DataFrame_columns :: "string list \<Rightarrow> frame" where
  "DataFrame_columns cols = \<lparr>columns = cols, rows = []\<rparr>"

text \<open>\<^verbatim>\<open>df[col] = v\<close> with a scalar: the column is overwritten, or added as the last one.\<close>

definition set_column :: "string \<Rightarrow> cell \<Rightarrow> frame \<Rightarrow> frame" where
  "set_column col v df =
     (case index_of col (columns df) of
        Some j \<Rightarrow> df\<lparr>rows := map (\<lambda>ir. (fst ir, (snd ir)[j := v])) (rows df)\<rparr>
      | None \<Rightarrow> \<lparr>columns = columns df @ [col],
                 rows = map (\<lambda>ir. (fst ir, snd ir @ [v])) (rows df)\<rparr>)"

text \<open>\<^verbatim>\<open>row[col]\<close> for a label that the columns have.\<close>

definition cell_at :: "string list \<Rightarrow> cell list \<Rightarrow> string \<Rightarrow> cell" where
  "cell_at cols r c = (case index_of c cols of Some j \<Rightarrow> r ! j | None \<Rightarrow> Null)"

text \<open>\<^verbatim>\<open>df[cols]\<close> with a list of labels: \<^verbatim>\<open>KeyError\<close> when one is not a column.\<close>

definition select_columns :: "frame \<Rightarrow> string list \<Rightarrow> error + frame" where
  "select_columns df cols =
     (if list_ex (\<lambda>c. c \<notin> set (columns df)) cols then Inl KeyError
      else Inr \<lparr>columns = cols,
                rows = map (\<lambda>ir. (fst ir, map (cell_at (columns df) (snd ir)) cols)) (rows df)\<rparr>)"

text \<open>\<^verbatim>\<open>df.empty\<close>: an axis of length 0.\<close>

definition empty :: "frame \<Rightarrow> bool" where
  "empty df = (columns df = [] \<or> rows df = [])"

text \<open>
  \<^verbatim>\<open>pd.DataFrame(records)\<close> with a list of dicts: the columns are the keys in the order
  they first occur, a key that a record lacks gives a missing value.
\<close>

definition DataFrame_records :: "(string \<times> cell) list list \<Rightarrow> frame" where
  "DataFrame_records recs =
     (let cols = rev (remdups (rev (concat (map (map fst) recs))))
      in \<lparr>columns = cols,
          rows = enumerate 0
            (map (\<lambda>rec. map (\<lambda>c. case map_of rec c of Some v \<Rightarrow> v | None \<Rightarrow> Null) cols) recs)\<rparr>)"

text \<open>
  \<^verbatim>\<open>pd.concat([df1, df2], ignore_index=True)\<close>: the rows of both, under the columns of
  the first followed by the new columns of the second, relabelled 0, 1, 2, ...
\<close>

definition reindex_row :: "string list \<Rightarrow> string list \<Rightarrow> cell list \<Rightarrow> cell list" where
  "reindex_row old new r = map (cell_at old r) new"

definition concat_frames :: "frame \<Rightarrow> frame \<Rightarrow> frame" where
  "concat_frames df1 df2 =
     (let cols = columns df1 @ filter (\<lambda>c. c \<notin> set (columns df1)) (columns df2)
      in \<lparr>columns = cols,
          rows = enumerate 0
            (map (\<lambda>ir. reindex_row (columns df1) cols (snd ir)) (rows df1) @
             map (\<lambda>ir. reindex_row (columns df2) cols (snd ir)) (rows df2))\<rparr>)"

text \<open>\<^verbatim>\<open>df[mask]\<close> with a boolean mask: the rows keep their index labels.\<close>

definition boolean_index :: "frame \<Rightarrow> bool list \<Rightarrow> frame" where
  "boolean_index df msk = df\<lparr>rows := map fst (filter snd (zip (rows df) msk))\<rparr>"

text \<open>
  \<^verbatim>\<open>df.at[idx, col] = v\<close>: every row labelled \<open>idx\<close> gets \<open>v\<close> in column \<open>col\<close>; a
  label or a column that the frame does not have is added, with missing values elsewhere.
  This is the assignment into a column that can hold \<open>v\<close>. For a value of another type
  than the column has (a boolean into a column of integers, or of missing values only)
  the outcome depends on the version of pandas: older versions change the type of the
  column, version 3 raises \<^verbatim>\<open>TypeError\<close>. The program only assigns booleans, and
  \<open>checklist\<close> below does not go on to the assignment unless the flags of the day are
  booleans.
\<close>

definition set_at :: "nat \<Rightarrow> string \<Rightarrow> cell \<Rightarrow> frame \<Rightarrow> frame" where
  "set_at idx col v df =
     (let df1 = (if col \<in> set (columns df) then df else set_column col Null df);
          df2 = (if list_ex (\<lambda>ir. fst ir = idx) (rows df1) then df1
                 else df1\<lparr>rows := rows df1 @ [(idx, replicate (length (columns df1)) Null)]\<rparr>)
      in case index_of col (columns df2) of
           None \<Rightarrow> df2
         | Some j \<Rightarrow>
             df2\<lparr>rows := map (\<lambda>ir. if fst ir = idx then (fst ir, (snd ir)[j := v]) else ir) (rows df2)\<rparr>)"

text \<open>
  \<^verbatim>\<open>df.sort_values(by, ascending=...)\<close>, as \<^verbatim>\<open>nargsort\<close> orders the rows: the rows
  with a value by their value, then the rows without (\<^verbatim>\<open>na_position='last'\<close>). The
  descending order is the ascending order of the reversed rows, reversed. The default
  sort of pandas is not stable; the model orders rows of equal value as a stable sort
  does, and no result below depends on their order.

  Timestamps are ordered with timestamps and text with text; these are the two types that
  a column of \<^verbatim>\<open>parse_dates\<close> has after \<^verbatim>\<open>read_csv\<close>. The \<^verbatim>\<open>datetime.date\<close>
  objects of a column are ordered with each other too. Numbers are not ordered here
  (\<open>NotModelled\<close>). Cells that Python cannot compare with each other raise
  \<^verbatim>\<open>TypeError\<close>.
\<close>

definition order_rows :: "('a \<Rightarrow> ('k :: linorder) option) \<Rightarrow> bool \<Rightarrow> 'a list \<Rightarrow> 'a list" where
  "order_rows key ascending rs =
     (let present = filter (\<lambda>r. key r \<noteq> None) rs;
          missing = filter (\<lambda>r. key r = None) rs
      in (if ascending then sort_key key present else rev (sort_key key (rev present))) @ missing)"

definition date_key :: "cell \<Rightarrow> date option" where
  "date_key c = (case c of DateC d \<Rightarrow> Some d | _ \<Rightarrow> None)"

definition str_key :: "cell \<Rightarrow> string option" where
  "str_key c = (case c of StrC s \<Rightarrow> Some s | _ \<Rightarrow> None)"

definition date_obj_key :: "cell \<Rightarrow> date option" where
  "date_obj_key c = (case c of DateObjC d \<Rightarrow> Some d | _ \<Rightarrow> None)"

definition is_number :: "cell \<Rightarrow> bool" where
  "is_number c = (case c of IntC i \<Rightarrow> True | BoolC b \<Rightarrow> True | _ \<Rightarrow> False)"

definition sort_values :: "frame \<Rightarrow> string \<Rightarrow> bool \<Rightarrow> error + frame" where
  "sort_values df by ascending =
     (case index_of by (columns df) of
        None \<Rightarrow> Inl KeyError
      | Some j \<Rightarrow>
          let cs = map (\<lambda>ir. snd ir ! j) (rows df) in
          if list_all (\<lambda>c. c = Null \<or> date_key c \<noteq> None) cs then
            Inr (df\<lparr>rows := order_rows (\<lambda>ir. date_key (snd ir ! j)) ascending (rows df)\<rparr>)
          else if list_all (\<lambda>c. c = Null \<or> str_key c \<noteq> None) cs then
            Inr (df\<lparr>rows := order_rows (\<lambda>ir. str_key (snd ir ! j)) ascending (rows df)\<rparr>)
          else if list_all (\<lambda>c. c = Null \<or> date_obj_key c \<noteq> None) cs then
            Inr (df\<lparr>rows := order_rows (\<lambda>ir. date_obj_key (snd ir ! j)) ascending (rows df)\<rparr>)
          else if list_all (\<lambda>c. c = Null \<or> is_number c) cs then Inl NotModelled
          else Inl TypeError)"

text \<open>\<^verbatim>\<open>df.head(n)\<close>.\<close>

definition head :: "nat \<Rightarrow> frame \<Rightarrow> frame" where
  "head n df = df\<lparr>rows := take n (rows df)\<rparr>"

section \<open>The program\<close>

subsection \<open>Loading and saving\<close>

definition COLUMNS :: "string list" where
  "COLUMNS = [''fecha'', ''nivel'', ''descripcion'', ''completada'']"

definition load_data :: "store \<Rightarrow> error + frame" where
  "load_data st =
     (case st of
        Some file \<Rightarrow>
          (case read_csv file [''fecha''] of
             Inl e \<Rightarrow> Inl e
           | Inr df \<Rightarrow>
               let missing_cols = filter (\<lambda>c. c \<notin> set (columns df)) COLUMNS;
                   df' = fold (\<lambda>col. set_column col Null) missing_cols df
               in select_columns df' COLUMNS)
      | None \<Rightarrow> Inr (DataFrame_columns COLUMNS))"

definition save_data :: "frame \<Rightarrow> store \<Rightarrow> store" where
  "save_data df st = Some (to_csv df)"

subsection \<open>One run of the script\<close>

text \<open>
  Streamlit runs the script from top to bottom on every interaction. What the user did is
  the input of the run: the selected date, whether the form was submitted and with which
  six texts, and the state of the checkbox of every row (by index label).
\<close>

record ui =
  selected_date :: date
  submitted :: bool
  t_estrategica :: string
  t_op1 :: string
  t_op2 :: string
  t_micro1 :: string
  t_micro2 :: string
  t_micro3 :: string
  checkbox :: "nat \<Rightarrow> bool"

text \<open>
  \<^verbatim>\<open>mask_today = df_tasks["fecha"] == pd.to_datetime(selected_date)\<close> and
  \<^verbatim>\<open>df_today = df_tasks[mask_today].copy()\<close>.
\<close>

definition mask_today :: "frame \<Rightarrow> date \<Rightarrow> error + bool list" where
  "mask_today df_tasks d =
     (case index_of ''fecha'' (columns df_tasks) of
        None \<Rightarrow> Inl KeyError
      | Some j \<Rightarrow> Inr (map (\<lambda>ir. snd ir ! j = DateC d) (rows df_tasks)))"

text \<open>
  The rows of the selected day, and the branch of \<^verbatim>\<open>if df_today.empty:\<close> that the
  script takes for them.
\<close>

definition df_today_of :: "frame \<Rightarrow> date \<Rightarrow> error + frame" where
  "df_today_of df_tasks d =
     (case mask_today df_tasks d of
        Inl e \<Rightarrow> Inl e
      | Inr msk \<Rightarrow> Inr (boolean_index df_tasks msk))"

datatype view = CreationForm | Checklist

definition view_of :: "frame \<Rightarrow> view" where
  "view_of df_today = (if empty df_today then CreationForm else Checklist)"

text \<open>
  The six labels of \<^verbatim>\<open>LEVEL_MAPPING\<close> (written in ASCII) and the level of each: a
  dictionary that the script reads at these six keys only.
\<close>

datatype label = Estrategica_1 | Operativa_2a | Operativa_2b | Micro_3a | Micro_3b | Micro_3c

fun LEVEL_MAPPING :: "label \<Rightarrow> int" where
  "LEVEL_MAPPING Estrategica_1 = 1"
| "LEVEL_MAPPING Operativa_2a = 2"
| "LEVEL_MAPPING Operativa_2b = 2"
| "LEVEL_MAPPING Micro_3a = 3"
| "LEVEL_MAPPING Micro_3b = 3"
| "LEVEL_MAPPING Micro_3c = 3"

text \<open>
  The rows of the form, as the submission block builds them: \<^verbatim>\<open>selected_date\<close> is the
  \<^verbatim>\<open>datetime.date\<close> of \<^verbatim>\<open>st.date_input\<close>.
\<close>

definition task_row :: "date \<Rightarrow> label \<Rightarrow> string \<Rightarrow> (string \<times> cell) list" where
  "task_row d l t =
     [(''fecha'', DateObjC d), (''nivel'', IntC (LEVEL_MAPPING l)),
      (''descripcion'', StrC t), (''completada'', BoolC False)]"

definition new_rows :: "ui \<Rightarrow> (string \<times> cell) list list" where
  "new_rows u =
     [task_row (selected_date u) Estrategica_1 (t_estrategica u),
      task_row (selected_date u) Operativa_2a (t_op1 u),
      task_row (selected_date u) Operativa_2b (t_op2 u),
      task_row (selected_date u) Micro_3a (t_micro1 u),
      task_row (selected_date u) Micro_3b (t_micro2 u),
      task_row (selected_date u) Micro_3c (t_micro3 u)]"

text \<open>
  The body of \<^verbatim>\<open>if submitted:\<close>: the new table and the store after \<^verbatim>\<open>save_data\<close>.
\<close>

definition submit :: "ui \<Rightarrow> frame \<Rightarrow> store \<Rightarrow> frame \<times> store" where
  "submit u df_tasks st =
     (let df' = concat_frames df_tasks (DataFrame_records (new_rows u))
      in (df', save_data df' st))"

text \<open>
  \<^verbatim>\<open>done != row["completada"]\<close> for the boolean \<open>done\<close> of the checkbox: in Python
  \<^verbatim>\<open>True == 1\<close> and \<^verbatim>\<open>False == 0\<close>, and a boolean differs from a missing value, a text
  and a date.
\<close>

definition differs :: "bool \<Rightarrow> cell \<Rightarrow> bool" where
  "differs done c =
     (case c of
        BoolC b \<Rightarrow> done \<noteq> b
      | IntC i \<Rightarrow> i \<noteq> (if done then 1 else 0)
      | _ \<Rightarrow> True)"

text \<open>
  One round of the loop over \<^verbatim>\<open>df_today.iterrows()\<close>: \<open>row\<close> is the row as it was when
  \<open>df_today\<close> was copied, the update goes to \<open>df_tasks\<close> and is saved at once. The loop
  reads \<^verbatim>\<open>row["completada"]\<close> at the position \<open>j\<close> of that column.
\<close>

definition toggle :: "(nat \<Rightarrow> bool) \<Rightarrow> nat \<Rightarrow> nat \<times> cell list \<Rightarrow> frame \<times> store \<Rightarrow> frame \<times> store" where
  "toggle chk j ir s =
     (let idx = fst ir; row = snd ir; done = chk idx in
        if differs done (row ! j) then
          (let df' = set_at idx ''completada'' (BoolC done) (fst s) in (df', save_data df' (snd s)))
        else s)"

text \<open>
  The loop of the checklist. When a flag of the day is not a boolean, the column
  \<^verbatim>\<open>completada\<close> may be one that cannot hold the boolean of the checkbox, and what the
  assignment does then is not modelled (see \<open>set_at\<close>). When the flags of the day are
  booleans, the column holds booleans, or booleans beside missing values, and takes the
  boolean in every version of pandas.
\<close>

definition is_bool :: "cell \<Rightarrow> bool" where
  "is_bool c = (case c of BoolC b \<Rightarrow> True | _ \<Rightarrow> False)"

definition checklist :: "(nat \<Rightarrow> bool) \<Rightarrow> frame \<Rightarrow> frame \<Rightarrow> store \<Rightarrow> error + frame \<times> store" where
  "checklist chk df_today df_tasks st =
     (if rows df_today = [] then Inr (df_tasks, st)
      else case index_of ''completada'' (columns df_today) of
          None \<Rightarrow> Inl KeyError
        | Some j \<Rightarrow>
            if list_ex (\<lambda>ir. \<not> is_bool (snd ir ! j)) (rows df_today) then Inl NotModelled
            else Inr (fold (toggle chk j) (rows df_today) (df_tasks, st)))"

text \<open>The sidebar: the 14 first rows of the table sorted by date, latest first.\<close>

datatype sidebar = NotRendered | NoHistory | History frame

definition history :: "frame \<Rightarrow> error + sidebar" where
  "history df_tasks =
     (if \<not> empty df_tasks then
        (case sort_values df_tasks ''fecha'' False of
           Inl e \<Rightarrow> Inl e
         | Inr df_tasks_sorted \<Rightarrow> Inr (History (head 14 df_tasks_sorted)))
      else Inr NoHistory)"

text \<open>
  The whole script: the store it leaves, and the page it shows or the exception that ends
  it. \<^verbatim>\<open>st.rerun()\<close> ends the run after a submission, before the sidebar is drawn.
\<close>

record page =
  page_tasks :: frame
  page_view :: view
  page_sidebar :: sidebar

definition run :: "store \<Rightarrow> ui \<Rightarrow> store \<times> (error + page)" where
  "run st u =
     (case load_data st of
        Inl e \<Rightarrow> (st, Inl e)
      | Inr df_tasks \<Rightarrow>
          (case df_today_of df_tasks (selected_date u) of
             Inl e \<Rightarrow> (st, Inl e)
           | Inr df_today \<Rightarrow>
               (case view_of df_today of
                  CreationForm \<Rightarrow>
                    (if submitted u then
                      (case submit u df_tasks st of
                         (df', st') \<Rightarrow>
                           (st', Inr \<lparr>page_tasks = df', page_view = CreationForm,
                                      page_sidebar = NotRendered\<rparr>))
                    else
                      (case history df_tasks of
                         Inl e \<Rightarrow> (st, Inl e)
                       | Inr h \<Rightarrow>
                           (st, Inr \<lparr>page_tasks = df_tasks, page_view = CreationForm,
                                     page_sidebar = h\<rparr>)))
                | Checklist \<Rightarrow>
                    (case checklist (checkbox u) df_today df_tasks st of
                       Inl e \<Rightarrow> (st, Inl e)
                     | Inr (df', st') \<Rightarrow>
                         (case history df' of
                            Inl e \<Rightarrow> (st', Inl e)
                          | Inr h \<Rightarrow>
                              (st', Inr \<lparr>page_tasks = df', page_view = Checklist,
                                         page_sidebar = h\<rparr>))))))"

section \<open>Tables of task entries\<close>

text \<open>
  The cell of a row of a frame in a column, and what identifies a task entry apart from
  its flag: its date, level and description.
\<close>

definition cell_of :: "frame \<Rightarrow> nat \<times> cell list \<Rightarrow> string \<Rightarrow> cell" where
  "cell_of df ir c = cell_at (columns df) (snd ir) c"

definition entry_key :: "frame \<Rightarrow> nat \<times> cell list \<Rightarrow> cell \<times> cell \<times> cell" where
  "entry_key df ir = (cell_of df ir ''fecha'', cell_of df ir ''nivel'', cell_of df ir ''descripcion'')"

text \<open>
  A task entry has a date, a level from 1 to 3, a text and a boolean. A valid table has the
  four columns, the index labels 0, 1, 2, ... and a task entry in every row, its date held
  as a timestamp: this is how \<open>load_data\<close> returns the tables of the program.
\<close>

fun valid_entry :: "cell list \<Rightarrow> bool" where
  "valid_entry [DateC d, IntC l, StrC s, BoolC b] = (valid_date d \<and> 1 \<le> l \<and> l \<le> 3)"
| "valid_entry r = False"

definition valid_table :: "frame \<Rightarrow> bool" where
  "valid_table df =
     (columns df = COLUMNS \<and> map fst (rows df) = [0..<length (rows df)] \<and>
      list_all (\<lambda>ir. valid_entry (snd ir)) (rows df))"

text \<open>
  The descriptions of a table, and the columns of texts that \<^verbatim>\<open>read_csv\<close> reads back as
  they were written: no text spells a missing value (so none is empty), and unless there is
  no text at all, one of them is no number and one of them is no boolean.
\<close>

definition descriptions :: "frame \<Rightarrow> string list" where
  "descriptions df =
     map (\<lambda>ir. case cell_of df ir ''descripcion'' of StrC s \<Rightarrow> s | _ \<Rightarrow> []) (rows df)"

definition kept_as_text :: "string list \<Rightarrow> bool" where
  "kept_as_text ds =
     (ds = [] \<or>
      (list_all (\<lambda>s. \<not> is_na s) ds \<and> list_ex (\<lambda>s. \<not> is_numeric_text s) ds \<and>
       list_ex (\<lambda>s. \<not> is_bool_text s) ds))"



section \<open>Example inputs\<close>

text \<open>
  A store with one task of the first of January 2024, the table it is loaded as, and two
  interactions of the user: submitting the form for the second of January, and ticking
  the checkbox of the task on the first. Then a table of four rows, one without a date,
  for the history.
\<close>

definition ex_file :: csv where
  "ex_file = [[''fecha'', ''nivel'', ''descripcion'', ''completada''],
              [''2024-01-01'', ''1'', ''Plan'', ''False'']]"

definition ex_table :: frame where
  "ex_table = \<lparr>columns = [''fecha'', ''nivel'', ''descripcion'', ''completada''],
               rows = [(0, [DateC (2024, 1, 1), IntC 1, StrC ''Plan'', BoolC False])]\<rparr>"

definition ex_submit :: ui where
  "ex_submit = \<lparr>selected_date = (2024, 1, 2), submitted = True, t_estrategica = ''A'',
                 t_op1 = ''B'', t_op2 = [], t_micro1 = ''D'', t_micro2 = ''E'', t_micro3 = ''F'',
                 checkbox = (\<lambda>i. False)\<rparr>"

definition ex_tick :: ui where
  "ex_tick = \<lparr>selected_date = (2024, 1, 1), submitted = False, t_estrategica = [],
               t_op1 = [], t_op2 = [], t_micro1 = [], t_micro2 = [], t_micro3 = [],
               checkbox = (\<lambda>i. True)\<rparr>"

definition ex_history :: frame where
  "ex_history = \<lparr>columns = [''fecha'', ''nivel'', ''descripcion'', ''completada''],
                 rows = [(0, [DateC (2024, 1, 1), IntC 1, StrC ''A'', BoolC True]),
                         (1, [DateC (2024, 1, 3), IntC 1, StrC ''C'', BoolC False]),
                         (2, [DateC (2024, 1, 2), IntC 2, StrC ''B'', BoolC True]),
                         (3, [Null, IntC 3, StrC ''D'', BoolC False])]\<rparr>"

section \<open>Writing a table and reading it back\<close>

lemma index_of_None: "index_of x xs = None \<longleftrightarrow> x \<notin> set xs"
  by (induction xs) auto

lemma index_of_Some:
  assumes "index_of x xs = Some j"
  shows "j < length xs \<and> xs ! j = x"
  using assms by (induction xs arbitrary: j) (auto split: if_splits)

lemma index_of_append:
  "index_of x (xs @ ys) =
     (if x \<in> set xs then index_of x xs else map_option (\<lambda>j. length xs + j) (index_of x ys))"
proof (induction xs)
  case Nil
  show ?case by (cases "index_of x ys") simp_all
next
  case (Cons a xs)
  then show ?case by (cases "index_of x ys") auto
qed

lemma digit_val_nth:
  assumes "k < 10"
  shows "digit_val (''0123456789'' ! k) = Some k"
proof -
  from assms have "k = 0 \<or> k = 1 \<or> k = 2 \<or> k = 3 \<or> k = 4 \<or> k = 5 \<or> k = 6 \<or> k = 7 \<or> k = 8 \<or> k = 9"
    by arith
  then show ?thesis
    by (elim disjE) (simp_all add: digit_val_def)
qed

lemma digit_val_digit_char: "digit_val (digit_char n) = Some (n mod 10)"
  by (simp add: digit_char_def digit_val_nth)

lemma nat_of_digits_snoc:
  "nat_of_digits acc (cs @ [c]) =
     (case nat_of_digits acc cs of None \<Rightarrow> None
      | Some m \<Rightarrow> (case digit_val c of None \<Rightarrow> None | Some d \<Rightarrow> Some (m * 10 + d)))"
  by (induction cs arbitrary: acc) (auto split: option.splits)

lemma nat_of_digits_zpad: "nat_of_digits 0 (zpad k n) = Some (n mod 10 ^ k)"
proof (induction k arbitrary: n)
  case 0
  then show ?case by simp
next
  case (Suc k)
  have "n div 10 mod 10 ^ k * 10 + n mod 10 = n mod (10 * 10 ^ k)"
    by (simp add: mod_mult2_eq)
  with Suc show ?case
    by (simp add: nat_of_digits_snoc digit_val_digit_char)
qed

lemma length_zpad: "length (zpad k n) = k"
  by (induction k arbitrary: n) simp_all

lemma nat_of_text_zpad: "0 < k \<Longrightarrow> n < 10 ^ k \<Longrightarrow> nat_of_text (zpad k n) = Some n"
  using length_zpad [of k n] by (auto simp add: nat_of_text_def nat_of_digits_zpad)

lemma parse_iso_date:
  assumes "valid_date d"
  shows "parse_date (iso_date d) = Some d"
proof -
  obtain y m dd where d: "d = (y, m, dd)" by (cases d) auto
  from assms d have y: "y < 10 ^ 4" and m: "m < 10 ^ 2" and dd: "dd < 10 ^ 2"
    by (auto simp add: days_in_month_def split: if_splits)
  have l4: "length (zpad 4 y) = 4" and l2: "length (zpad 2 m) = 2" and l2': "length (zpad 2 dd) = 2"
    by (simp_all add: length_zpad)
  have "nat_of_text (zpad 4 y) = Some y" "nat_of_text (zpad 2 m) = Some m" "nat_of_text (zpad 2 dd) = Some dd"
    using y m dd by (simp_all add: nat_of_text_zpad)
  with assms d l4 l2 l2' show ?thesis
    by (simp add: parse_date_def nth_append del: valid_date.simps)
qed

lemma length_na: "f \<in> set na_values \<Longrightarrow> length f \<le> 8"
  by (auto simp add: na_values_def)

lemma iso_date_not_na: "\<not> is_na (iso_date d)"
proof -
  obtain y m dd where d: "d = (y, m, dd)" by (cases d) auto
  have "length (iso_date d) = 10" by (simp add: d length_zpad)
  then show ?thesis using length_na [of "iso_date d"] by (auto simp add: is_na_def)
qed

lemma parse_cell_date: "valid_date d \<Longrightarrow> parse_cell KDate (iso_date d) = DateC d"
  by (simp add: parse_cell_def iso_date_not_na parse_iso_date del: valid_date.simps iso_date.simps)

lemma show_level: "show_int 1 = ''1'' \<and> show_int 2 = ''2'' \<and> show_int 3 = ''3''"
  by (simp add: show_int_def show_nat.simps digit_char_def)

lemma level_cases: "1 \<le> l \<Longrightarrow> l \<le> 3 \<Longrightarrow> l = 1 \<or> l = 2 \<or> l = (3 :: int)"
  by arith

lemma level_text_facts:
  "(\<not> is_na ''1'' \<and> is_int64_text ''1'') \<and> (\<not> is_na ''2'' \<and> is_int64_text ''2'') \<and>
   (\<not> is_na ''3'' \<and> is_int64_text ''3'')"
  by code_simp

lemma level_parse_facts:
  "parse_cell KInt ''1'' = IntC 1 \<and> parse_cell KInt ''2'' = IntC 2 \<and> parse_cell KInt ''3'' = IntC 3"
  by code_simp

lemma level_text:
  assumes "1 \<le> l" "l \<le> 3"
  shows "\<not> is_na (show_int l) \<and> is_int64_text (show_int l) \<and> parse_cell KInt (show_int l) = IntC l"
  using level_cases [OF assms] show_level level_text_facts level_parse_facts
  by (elim disjE) simp_all

lemma bool_text_facts:
  "(\<not> is_na ''True'' \<and> \<not> is_int64_text ''True'' \<and> \<not> is_numeric_text ''True'' \<and> is_bool_text ''True''
      \<and> parse_cell KBool ''True'' = BoolC True) \<and>
   (\<not> is_na ''False'' \<and> \<not> is_int64_text ''False'' \<and> \<not> is_numeric_text ''False'' \<and> is_bool_text ''False''
      \<and> parse_cell KBool ''False'' = BoolC False)"
  by code_simp

lemma bool_text:
  "\<not> is_na (render_cell dt (BoolC b)) \<and> \<not> is_int64_text (render_cell dt (BoolC b)) \<and>
   \<not> is_numeric_text (render_cell dt (BoolC b)) \<and> is_bool_text (render_cell dt (BoolC b)) \<and>
   parse_cell KBool (render_cell dt (BoolC b)) = BoolC b"
  using bool_text_facts by (cases b) simp_all

lemma parse_cell_text: "\<not> is_na s \<Longrightarrow> parse_cell KStr s = StrC s"
  by (simp add: parse_cell_def)

lemma nat_of_digits_digits:
  "nat_of_digits acc cs = Some n \<Longrightarrow> list_all (\<lambda>c. digit_val c \<noteq> None) cs"
  by (induction cs arbitrary: acc) (auto split: option.splits)

lemma nat_of_text_digits:
  assumes "nat_of_text cs = Some n"
  shows "cs \<noteq> [] \<and> list_all (\<lambda>c. digit_val c \<noteq> None) cs"
  using assms nat_of_digits_digits [of 0 cs n]
  by (auto simp add: nat_of_text_def split: if_splits)

lemma digits_float:
  assumes "cs \<noteq> []" "list_all (\<lambda>c. digit_val c \<noteq> None) cs" "drop_sign t = cs"
    "strip f = t"
  shows "is_float_text f"
proof -
  have "is_digit c" if "c \<in> set cs" for c
    using that assms(2) by (simp add: is_digit_def list_all_iff)
  then have tw: "takeWhile is_digit cs = cs" and dw: "dropWhile is_digit cs = []"
    by simp_all
  show ?thesis
    unfolding is_float_text_def Let_def assms(4) assms(3)
    by (simp only: tw dw list.case assms(1) not_False_eq_True simp_thms)
qed

lemma int_is_numeric:
  assumes "is_int64_text f"
  shows "is_numeric_text f"
proof -
  from assms obtain i where i: "int_of_text f = Some i"
    by (auto simp add: is_int64_text_def split: option.splits)
  then obtain c cs where t: "strip f = c # cs"
    by (cases "strip f") (auto simp add: int_of_text_def)
  have "is_float_text f"
  proof (cases "c = CHR ''-'' \<or> c = CHR ''+''")
    case True
    with i t obtain n where "nat_of_text cs = Some n"
      by (auto simp add: int_of_text_def split: if_splits)
    then have "cs \<noteq> []" "list_all (\<lambda>c. digit_val c \<noteq> None) cs"
      using nat_of_text_digits by blast+
    moreover from True have "drop_sign (c # cs) = cs" by (auto simp add: drop_sign_def)
    ultimately show ?thesis using t by (rule digits_float)
  next
    case False
    with i t obtain n where "nat_of_text (c # cs) = Some n"
      by (auto simp add: int_of_text_def split: if_splits)
    then have "list_all (\<lambda>c. digit_val c \<noteq> None) (c # cs)"
      using nat_of_text_digits by blast
    moreover from False have "drop_sign (c # cs) = c # cs" by (simp add: drop_sign_def)
    moreover have "c # cs \<noteq> []" by simp
    ultimately show ?thesis using t by (simp only: digits_float)
  qed
  then show ?thesis by (simp only: is_numeric_text_def simp_thms)
qed

lemma kind_dates:
  assumes "\<forall>f \<in> set fs. \<exists>d. valid_date d \<and> f = iso_date d"
  shows "column_kind [''fecha''] ''fecha'' fs = KDate"
proof -
  have "parse_date f \<noteq> None" if "f \<in> set fs" for f
    using assms that parse_iso_date by fastforce
  then show ?thesis
    by (simp add: column_kind_def date_kind_def list_all_iff)
qed

lemma kind_levels:
  assumes "fs \<noteq> []" "\<forall>f \<in> set fs. \<not> is_na f \<and> is_int64_text f"
  shows "infer_kind fs = KInt"
proof -
  from assms have "filter (\<lambda>f. \<not> is_na f) fs = fs" "list_all is_int64_text fs"
    by (simp_all add: list_all_iff)
  with assms(1) show ?thesis by (simp add: infer_kind_def)
qed

lemma kind_text:
  assumes "fs \<noteq> []" "kept_as_text fs"
  shows "infer_kind fs = KStr"
proof -
  from assms have na: "list_all (\<lambda>s. \<not> is_na s) fs"
    and num: "list_ex (\<lambda>s. \<not> is_numeric_text s) fs" and bool: "list_ex (\<lambda>s. \<not> is_bool_text s) fs"
    by (simp_all add: kept_as_text_def)
  from na have fl: "filter (\<lambda>f. \<not> is_na f) fs = fs"
    by (simp add: list_all_iff)
  from num have "\<not> list_all is_numeric_text fs"
    by (auto simp add: list_all_iff list_ex_iff)
  moreover from num have "\<not> list_all is_int64_text fs"
    using int_is_numeric by (auto simp add: list_all_iff list_ex_iff)
  moreover from bool have "\<not> list_all is_bool_text fs"
    by (auto simp add: list_all_iff list_ex_iff)
  ultimately show ?thesis using fl assms(1) by (simp add: infer_kind_def)
qed

lemma kind_bools:
  assumes "fs \<noteq> []"
    "\<forall>f \<in> set fs. \<not> is_na f \<and> \<not> is_int64_text f \<and> \<not> is_numeric_text f \<and> is_bool_text f"
  shows "infer_kind fs = KBool"
proof -
  have fl: "filter (\<lambda>f. \<not> is_na f) fs = fs"
    using assms by simp
  from assms obtain f where "f \<in> set fs" by (cases fs) auto
  with assms have "\<not> list_all is_int64_text fs" "\<not> list_all is_numeric_text fs" "list_all is_bool_text fs"
    by (auto simp add: list_all_iff)
  with fl assms(1) show ?thesis by (simp add: infer_kind_def)
qed

lemma valid_entryE:
  assumes "valid_entry r"
  obtains d l s b where "r = [DateC d, IntC l, StrC s, BoolC b]" "valid_date d" "1 \<le> l" "l \<le> 3"
  using assms by (induction r rule: valid_entry.induct) simp_all

lemma upt_4: "[0..<4] = [0, 1, 2, 3]"
  by (simp add: upt_rec)

lemma enumerate_labels:
  assumes "map fst xs = [0..<length xs]"
  shows "enumerate 0 (map snd xs) = xs"
proof -
  have "enumerate 0 (map snd xs) = zip (map fst xs) (map snd xs)"
    using assms by (simp add: enumerate_eq_zip)
  then show ?thesis by (simp add: zip_map_fst_snd)
qed

lemma render_valid_entry:
  assumes "valid_entry r" "length dts = 4" "dts ! 0"
  shows "map2 render_cell dts r = map (render_cell True) r"
proof -
  from assms(1) obtain d l s b where r: "r = [DateC d, IntC l, StrC s, BoolC b]"
    by (rule valid_entryE)
  from assms(2) obtain a b c e where dts: "dts = [a, b, c, e]"
    by (auto simp add: length_Suc_conv numeral_eq_Suc)
  with assms(3) have "a" by simp
  with r dts show ?thesis by simp
qed

lemma description_of_valid_entry:
  assumes "valid_entry r"
  shows "(case cell_at COLUMNS r ''descripcion'' of StrC s \<Rightarrow> s | _ \<Rightarrow> []) = map (render_cell True) r ! 2"
proof -
  from assms obtain d l s b where r: "r = [DateC d, IntC l, StrC s, BoolC b]"
    by (rule valid_entryE)
  then show ?thesis by (simp add: cell_at_def COLUMNS_def)
qed

lemma read_csv_to_csv:
  assumes v: "valid_table T" and p: "kept_as_text (descriptions T)"
  shows "read_csv (to_csv T) [''fecha''] = Inr T"
proof -
  note valid_date.simps [simp del] iso_date.simps [simp del]
  define rs where "rs = map snd (rows T)"
  define body where "body = map (map (render_cell True)) rs"
  define kinds where "kinds = map (\<lambda>j. column_kind [''fecha''] (COLUMNS ! j) (map (\<lambda>r. r ! j) body)) [0..<4]"
  have cols: "columns T = COLUMNS" using v by (simp add: valid_table_def)
  have valid: "valid_entry r" if "r \<in> set rs" for r
    using that v by (auto simp add: rs_def valid_table_def list_all_iff)
  have shape: "\<exists>d l s b. r = [DateC d, IntC l, StrC s, BoolC b] \<and> valid_date d \<and> 1 \<le> l \<and> l \<le> 3"
    if "r \<in> set rs" for r
    using valid [OF that] by (rule valid_entryE) blast
  have descs: "descriptions T = map (\<lambda>r. r ! 2) body"
  proof -
    have "(case cell_of T ir ''descripcion'' of StrC s \<Rightarrow> s | _ \<Rightarrow> []) = map (render_cell True) (snd ir) ! 2"
      if "ir \<in> set (rows T)" for ir
    proof -
      from that have "valid_entry (snd ir)" using valid by (simp add: rs_def)
      then show ?thesis by (simp only: cell_of_def cols description_of_valid_entry)
    qed
    then show ?thesis by (simp add: descriptions_def body_def rs_def)
  qed
  have to_csv: "to_csv T = COLUMNS # body"
  proof -
    define dts where "dts = map (\<lambda>j. datetime64 (map (\<lambda>ir. snd ir ! j) (rows T))) [0..<4]"
    have "datetime64 (map (\<lambda>ir. snd ir ! 0) (rows T))"
      unfolding datetime64_def list_all_iff
    proof
      fix c assume "c \<in> set (map (\<lambda>ir. snd ir ! 0) (rows T))"
      then obtain r where "r \<in> set rs" "c = r ! 0" by (auto simp add: rs_def)
      with shape [of r] show "c = Null \<or> is_timestamp c" by (auto simp add: is_timestamp_def)
    qed
    then have "dts ! 0" by (simp add: dts_def upt_4)
    moreover have "length dts = 4" by (simp add: dts_def)
    ultimately have "map2 render_cell dts r = map (render_cell True) r" if "r \<in> set rs" for r
      using valid [OF that] by (simp add: render_valid_entry)
    then have "map (\<lambda>ir. map2 render_cell dts (snd ir)) (rows T) = body"
      by (simp add: body_def rs_def)
    moreover have l4: "length COLUMNS = 4" by (simp add: COLUMNS_def)
    ultimately show ?thesis
      unfolding to_csv_def dts_def by (simp only: cols l4 Let_def)
  qed
  have len: "length f = 4" if "f \<in> set body" for f
  proof -
    from that obtain r where "r \<in> set rs" "f = map (render_cell True) r" by (auto simp add: body_def)
    with shape [of r] show ?thesis by auto
  qed
  have k0: "kinds ! 0 = KDate"
  proof -
    have "\<forall>f \<in> set (map (\<lambda>r. r ! 0) body). \<exists>d. valid_date d \<and> f = iso_date d"
      using shape by (fastforce simp add: body_def)
    then show ?thesis by (simp add: kinds_def upt_4 COLUMNS_def kind_dates)
  qed
  have k1: "kinds ! 1 = KInt" if "rs \<noteq> []"
  proof -
    have "\<forall>f \<in> set (map (\<lambda>r. r ! 1) body). \<not> is_na f \<and> is_int64_text f"
      using shape level_text by (fastforce simp add: body_def)
    moreover have "map (\<lambda>r. r ! 1) body \<noteq> []" using that by (simp add: body_def)
    ultimately show ?thesis by (simp add: kinds_def upt_4 COLUMNS_def column_kind_def kind_levels)
  qed
  have k2: "kinds ! 2 = KStr" if "rs \<noteq> []"
  proof -
    have "map (\<lambda>r. r ! 2) body \<noteq> []" using that by (simp add: body_def)
    moreover have "kept_as_text (map (\<lambda>r. r ! 2) body)" using p by (simp only: descs)
    ultimately have "infer_kind (map (\<lambda>r. r ! 2) body) = KStr" by (rule kind_text)
    then show ?thesis by (simp add: kinds_def upt_4 COLUMNS_def column_kind_def)
  qed
  have k3: "kinds ! 3 = KBool" if "rs \<noteq> []"
  proof -
    have "\<forall>f \<in> set (map (\<lambda>r. r ! 3) body).
            \<not> is_na f \<and> \<not> is_int64_text f \<and> \<not> is_numeric_text f \<and> is_bool_text f"
    proof
      fix f assume "f \<in> set (map (\<lambda>r. r ! 3) body)"
      then obtain r where "r \<in> set rs" "f = map (render_cell True) r ! 3" by (auto simp add: body_def)
      with shape obtain b where "f = render_cell True (BoolC b)" by fastforce
      then show "\<not> is_na f \<and> \<not> is_int64_text f \<and> \<not> is_numeric_text f \<and> is_bool_text f"
        using bool_text [of True b] by simp
    qed
    moreover have "map (\<lambda>r. r ! 3) body \<noteq> []" using that by (simp add: body_def)
    ultimately show ?thesis by (simp add: kinds_def upt_4 COLUMNS_def column_kind_def kind_bools)
  qed
  have klen: "length kinds = 4" by (simp add: kinds_def)
  have kinds_eq: "kinds = [KDate, KInt, KStr, KBool]" if "rs \<noteq> []"
  proof -
    from klen obtain a b c d where "kinds = [a, b, c, d]"
      by (auto simp add: length_Suc_conv numeral_eq_Suc)
    with k0 k1 [OF that] k2 [OF that] k3 [OF that] show ?thesis by simp
  qed
  have kother: "KOther \<notin> set kinds"
  proof (cases "rs = []")
    case True
    then have "body = []" by (simp add: body_def)
    then show ?thesis
      by (simp add: kinds_def upt_4 COLUMNS_def column_kind_def date_kind_def infer_kind_def)
  next
    case False
    then show ?thesis by (simp add: kinds_eq)
  qed
  have pback: "map2 parse_cell kinds (map (render_cell True) r) = r" if "r \<in> set rs" for r
  proof -
    from that have ne: "rs \<noteq> []" by auto
    then have k: "kinds = [KDate, KInt, KStr, KBool]" by (rule kinds_eq)
    from shape [OF that] obtain d l s b where
      r: "r = [DateC d, IntC l, StrC s, BoolC b]" and d: "valid_date d" and l: "1 \<le> l" "l \<le> 3"
      by blast
    from that r have "s \<in> set (map (\<lambda>r. r ! 2) body)" by (force simp add: body_def)
    moreover from p ne have "list_all (\<lambda>s. \<not> is_na s) (map (\<lambda>r. r ! 2) body)"
      by (simp add: kept_as_text_def descs body_def)
    ultimately have s: "\<not> is_na s" by (auto simp add: list_all_iff)
    show ?thesis
      using parse_cell_date [OF d] level_text [OF l] bool_text [of True b] parse_cell_text [OF s]
      by (simp add: k r del: iso_date.simps valid_date.simps)
  qed
  have nolong: "\<not> list_ex (\<lambda>r. 4 < length r) body"
    using len by (auto simp add: list_ex_iff)
  have nolong1: "\<not> list_ex (\<lambda>r. 4 < length r) (take 1 body)"
    using len by (auto simp add: list_ex_iff dest: in_set_takeD)
  have pad: "map (\<lambda>r. r @ replicate (4 - length r) []) body = body"
    using len by (simp add: map_idI)
  have rows_back: "map (\<lambda>r. map2 parse_cell kinds r) body = rs"
    using pback by (simp add: body_def map_idI)
  have lab: "enumerate 0 rs = rows T"
    using v by (simp add: rs_def valid_table_def enumerate_labels)
  have "read_csv (COLUMNS # body) [''fecha''] = Inr \<lparr>columns = COLUMNS, rows = enumerate 0 rs\<rparr>"
  proof -
    have l4: "length COLUMNS = 4" by (simp add: COLUMNS_def)
    have nf: "\<not> list_ex (\<lambda>c. c \<notin> set COLUMNS) [''fecha'']" by (simp add: COLUMNS_def)
    have "read_csv (COLUMNS # body) [''fecha''] =
        Inr \<lparr>columns = COLUMNS, rows = enumerate 0 (map (\<lambda>r. map2 parse_cell kinds r) body)\<rparr>"
      unfolding read_csv_def kinds_def
      by (simp only: list.case Let_def pad nf nolong nolong1 if_False l4 kother [unfolded kinds_def])
    then show ?thesis by (simp only: rows_back)
  qed
  moreover have "\<lparr>columns = COLUMNS, rows = enumerate 0 rs\<rparr> = T"
    using cols lab by (cases T) simp
  ultimately show ?thesis by (simp only: to_csv)
qed

lemma select_all_columns:
  assumes "columns df = COLUMNS" "\<forall>ir \<in> set (rows df). length (snd ir) = 4"
  shows "select_columns df COLUMNS = Inr df"
proof -
  have "map (cell_at COLUMNS r) COLUMNS = r" if "length r = 4" for r
  proof -
    from that obtain a b c d where "r = [a, b, c, d]"
      by (auto simp add: length_Suc_conv numeral_eq_Suc)
    then show ?thesis by (simp add: COLUMNS_def cell_at_def)
  qed
  with assms have "map (\<lambda>ir. (fst ir, map (cell_at COLUMNS (snd ir)) COLUMNS)) (rows df) = rows df"
    by (simp add: map_idI)
  with assms show ?thesis
    by (simp add: select_columns_def) (simp add: COLUMNS_def)
qed

section \<open>Saving and loading\<close>

text \<open>
  Claim C1, as stated: loading what was saved gives the table back, for every valid table.
  It fails for the valid table with one entry whose description is empty: the empty text
  is written as the empty field, which is read as a missing value.
\<close>

theorem load_save_empty_description:
  "valid_table \<lparr>columns = [''fecha'', ''nivel'', ''descripcion'', ''completada''],
                rows = [(0, [DateC (2024, 1, 1), IntC 1, StrC [], BoolC False])]\<rparr>
   \<and> load_data (save_data \<lparr>columns = [''fecha'', ''nivel'', ''descripcion'', ''completada''],
                rows = [(0, [DateC (2024, 1, 1), IntC 1, StrC [], BoolC False])]\<rparr> None)
     = Inr \<lparr>columns = [''fecha'', ''nivel'', ''descripcion'', ''completada''],
                rows = [(0, [DateC (2024, 1, 1), IntC 1, Null, BoolC False])]\<rparr>
   \<and> load_data (save_data \<lparr>columns = [''fecha'', ''nivel'', ''descripcion'', ''completada''],
                rows = [(0, [DateC (2024, 1, 1), IntC 1, StrC [], BoolC False])]\<rparr> None)
     \<noteq> Inr \<lparr>columns = [''fecha'', ''nivel'', ''descripcion'', ''completada''],
                rows = [(0, [DateC (2024, 1, 1), IntC 1, StrC [], BoolC False])]\<rparr>"
  by code_simp

text \<open>
  A description that spells a missing value does not come back either, and when the
  descriptions of a table are all integers, or all booleans in whatever case, they are
  read as integers or booleans. One description that is a text keeps the column a column
  of texts, and then a number beside it comes back as it was.
\<close>

lemma load_save_other_descriptions:
  "load_data (save_data \<lparr>columns = COLUMNS,
        rows = [(0, [DateC (2024, 1, 1), IntC 1, StrC ''NA'', BoolC False])]\<rparr> None)
     = Inr \<lparr>columns = COLUMNS, rows = [(0, [DateC (2024, 1, 1), IntC 1, Null, BoolC False])]\<rparr>
   \<and> load_data (save_data \<lparr>columns = COLUMNS,
        rows = [(0, [DateC (2024, 1, 1), IntC 1, StrC ''12'', BoolC False])]\<rparr> None)
     = Inr \<lparr>columns = COLUMNS, rows = [(0, [DateC (2024, 1, 1), IntC 1, IntC 12, BoolC False])]\<rparr>
   \<and> load_data (save_data \<lparr>columns = COLUMNS,
        rows = [(0, [DateC (2024, 1, 1), IntC 1, StrC ''tRuE'', BoolC False])]\<rparr> None)
     = Inr \<lparr>columns = COLUMNS, rows = [(0, [DateC (2024, 1, 1), IntC 1, BoolC True, BoolC False])]\<rparr>
   \<and> load_data (save_data \<lparr>columns = COLUMNS,
        rows = [(0, [DateC (2024, 1, 1), IntC 1, StrC ''Plan'', BoolC False]),
                (1, [DateC (2024, 1, 1), IntC 2, StrC ''12'', BoolC False])]\<rparr> None)
     = Inr \<lparr>columns = COLUMNS,
        rows = [(0, [DateC (2024, 1, 1), IntC 1, StrC ''Plan'', BoolC False]),
                (1, [DateC (2024, 1, 1), IntC 2, StrC ''12'', BoolC False])]\<rparr>"
  by code_simp

text \<open>
  The table in memory after a submission holds the selected date as a \<^verbatim>\<open>datetime.date\<close>,
  and it is loaded with a timestamp in its place. After a submission on a later day the
  table holds the timestamps of the loaded rows beside the date of the new ones: the
  timestamps are written with their time of day, and the column is loaded as text.
\<close>

lemma load_save_date_objects:
  "load_data (save_data \<lparr>columns = COLUMNS,
        rows = [(0, [DateObjC (2024, 1, 2), IntC 1, StrC ''A'', BoolC False])]\<rparr> None)
     = Inr \<lparr>columns = COLUMNS, rows = [(0, [DateC (2024, 1, 2), IntC 1, StrC ''A'', BoolC False])]\<rparr>
   \<and> save_data \<lparr>columns = COLUMNS,
        rows = [(0, [DateC (2024, 1, 1), IntC 1, StrC ''Plan'', BoolC False]),
                (1, [DateObjC (2024, 1, 2), IntC 1, StrC ''A'', BoolC False])]\<rparr> None
     = Some [[''fecha'', ''nivel'', ''descripcion'', ''completada''],
             [''2024-01-01 00:00:00'', ''1'', ''Plan'', ''False''],
             [''2024-01-02'', ''1'', ''A'', ''False'']]
   \<and> load_data (Some [[''fecha'', ''nivel'', ''descripcion'', ''completada''],
             [''2024-01-01 00:00:00'', ''1'', ''Plan'', ''False''],
             [''2024-01-02'', ''1'', ''A'', ''False'']])
     = Inr \<lparr>columns = COLUMNS,
        rows = [(0, [StrC ''2024-01-01 00:00:00'', IntC 1, StrC ''Plan'', BoolC False]),
                (1, [StrC ''2024-01-02'', IntC 1, StrC ''A'', BoolC False])]\<rparr>"
  by code_simp

text \<open>
  Claim C1, amended: for every valid table, its dates held as timestamps, in which no
  description is empty or another spelling of a missing value, and whose descriptions are
  not all numbers and not all booleans, saving the table and loading the store gives the
  table back.
\<close>

theorem load_save_text_descriptions:
  assumes v: "valid_table T" and p: "kept_as_text (descriptions T)"
  shows "load_data (save_data T st) = Inr T"
proof -
  have cols: "columns T = COLUMNS" using v by (simp add: valid_table_def)
  have "\<forall>ir \<in> set (rows T). length (snd ir) = 4"
  proof
    fix ir assume "ir \<in> set (rows T)"
    with v have "valid_entry (snd ir)" by (simp add: valid_table_def list_all_iff)
    then show "length (snd ir) = 4" by (rule valid_entryE) simp
  qed
  with cols have "select_columns T COLUMNS = Inr T" by (rule select_all_columns)
  then show ?thesis
    by (simp add: load_data_def save_data_def read_csv_to_csv [OF v p] cols)
qed

theorem load_save_text_descriptions_witness:
  "valid_table \<lparr>columns = [''fecha'', ''nivel'', ''descripcion'', ''completada''],
                rows = [(0, [DateC (2024, 1, 1), IntC 1, StrC ''Plan anual'', BoolC False]),
                        (1, [DateC (2024, 2, 29), IntC 3, StrC ''12'', BoolC True])]\<rparr>
   \<and> kept_as_text (descriptions
        \<lparr>columns = [''fecha'', ''nivel'', ''descripcion'', ''completada''],
                rows = [(0, [DateC (2024, 1, 1), IntC 1, StrC ''Plan anual'', BoolC False]),
                        (1, [DateC (2024, 2, 29), IntC 3, StrC ''12'', BoolC True])]\<rparr>)
   \<and> load_data (save_data \<lparr>columns = [''fecha'', ''nivel'', ''descripcion'', ''completada''],
                rows = [(0, [DateC (2024, 1, 1), IntC 1, StrC ''Plan anual'', BoolC False]),
                        (1, [DateC (2024, 2, 29), IntC 3, StrC ''12'', BoolC True])]\<rparr> None)
     = Inr \<lparr>columns = [''fecha'', ''nivel'', ''descripcion'', ''completada''],
                rows = [(0, [DateC (2024, 1, 1), IntC 1, StrC ''Plan anual'', BoolC False]),
                        (1, [DateC (2024, 2, 29), IntC 3, StrC ''12'', BoolC True])]\<rparr>"
proof -
  have v: "valid_table \<lparr>columns = [''fecha'', ''nivel'', ''descripcion'', ''completada''],
                rows = [(0, [DateC (2024, 1, 1), IntC 1, StrC ''Plan anual'', BoolC False]),
                        (1, [DateC (2024, 2, 29), IntC 3, StrC ''12'', BoolC True])]\<rparr>"
    by code_simp
  have p: "kept_as_text (descriptions
        \<lparr>columns = [''fecha'', ''nivel'', ''descripcion'', ''completada''],
                rows = [(0, [DateC (2024, 1, 1), IntC 1, StrC ''Plan anual'', BoolC False]),
                        (1, [DateC (2024, 2, 29), IntC 3, StrC ''12'', BoolC True])]\<rparr>)"
    by code_simp
  from v p load_save_text_descriptions [OF v p, of None] show ?thesis by blast
qed
section \<open>Loading a store that does not exist\<close>

text \<open>
  Claim C7. If the persisted CSV file does not exist, \<open>load_data\<close> raises no error and
  returns the empty table with the four columns fecha, nivel, descripcion, completada.
\<close>

theorem load_data_no_file:
  "load_data None = Inr \<lparr>columns = [''fecha'', ''nivel'', ''descripcion'', ''completada''], rows = []\<rparr>"
  by (simp add: load_data_def DataFrame_columns_def COLUMNS_def)

section \<open>The columns of a loaded table\<close>

lemma select_columns_shape:
  assumes "select_columns df cols = Inr t"
  shows "columns t = cols \<and> (\<forall>ir \<in> set (rows t). length (snd ir) = length cols)"
  using assms by (auto simp add: select_columns_def split: if_splits)

text \<open>
  Claim C9. Whenever \<open>load_data\<close> returns a table, the table has exactly the four columns
  fecha, nivel, descripcion, completada in that order, and every row has one cell for each
  of them: a column of the file that is not one of the four is not in the table.
\<close>

theorem load_data_columns:
  assumes "load_data st = Inr df"
  shows "columns df = [''fecha'', ''nivel'', ''descripcion'', ''completada''] \<and>
         list_all (\<lambda>ir. length (snd ir) = 4) (rows df)"
proof (cases st)
  case None
  with assms show ?thesis
    by (auto simp add: load_data_def DataFrame_columns_def COLUMNS_def)
next
  case (Some content)
  with assms obtain df' where "select_columns df' COLUMNS = Inr df"
    by (auto simp add: load_data_def Let_def split: sum.splits)
  from select_columns_shape [OF this] show ?thesis
    by (simp add: COLUMNS_def list_all_iff)
qed

theorem load_data_columns_witness:
  "load_data (Some [[''notas'', ''fecha'', ''nivel'', ''descripcion'', ''completada'', ''extra''],
                    [''hola'', ''2024-01-01'', ''1'', ''Plan'', ''False'', ''x'']])
     = Inr \<lparr>columns = [''fecha'', ''nivel'', ''descripcion'', ''completada''],
            rows = [(0, [DateC (2024, 1, 1), IntC 1, StrC ''Plan'', BoolC False])]\<rparr>
   \<and> columns \<lparr>columns = [''fecha'', ''nivel'', ''descripcion'', ''completada''],
            rows = [(0, [DateC (2024, 1, 1), IntC 1, StrC ''Plan'', BoolC False])]\<rparr>
       = [''fecha'', ''nivel'', ''descripcion'', ''completada'']
   \<and> list_all (\<lambda>ir. length (snd ir) = 4)
         (rows \<lparr>columns = [''fecha'', ''nivel'', ''descripcion'', ''completada''],
            rows = [(0, [DateC (2024, 1, 1), IntC 1, StrC ''Plan'', BoolC False])]\<rparr>)"
proof -
  have l: "load_data (Some [[''notas'', ''fecha'', ''nivel'', ''descripcion'', ''completada'', ''extra''],
                    [''hola'', ''2024-01-01'', ''1'', ''Plan'', ''False'', ''x'']])
     = Inr \<lparr>columns = [''fecha'', ''nivel'', ''descripcion'', ''completada''],
            rows = [(0, [DateC (2024, 1, 1), IntC 1, StrC ''Plan'', BoolC False])]\<rparr>"
    by code_simp
  from l load_data_columns [OF l] show ?thesis by blast
qed

section \<open>Columns that the file does not have\<close>

lemma read_csv_wf:
  assumes "read_csv content pd = Inr df"
  shows "wf_frame df"
proof (cases content)
  case Nil
  with assms show ?thesis by (simp add: read_csv_def)
next
  case (Cons header body)
  define n where "n = length header"
  define padded where "padded = map (\<lambda>r. r @ replicate (n - length r) []) body"
  define kinds where
    "kinds = map (\<lambda>j. column_kind pd (header ! j) (map (\<lambda>r. r ! j) padded)) [0..<n]"
  from assms Cons have short: "\<forall>r \<in> set body. length r \<le> n"
    and df: "df = \<lparr>columns = header, rows = enumerate 0 (map (\<lambda>r. map2 parse_cell kinds r) padded)\<rparr>"
    by (auto simp add: read_csv_def Let_def n_def padded_def kinds_def list_ex_iff not_less
             split: if_splits)
  have "length r = n" if "r \<in> set padded" for r
    using that short by (auto simp add: padded_def)
  moreover have "length kinds = n" by (simp add: kinds_def)
  ultimately show ?thesis
    by (auto simp add: wf_frame_def df list_all_iff n_def in_set_enumerate_eq)
qed

lemma fold_set_column_new:
  assumes "distinct cs" and "set cs \<inter> set (columns df) = {}"
  shows "columns (fold (\<lambda>col. set_column col v) cs df) = columns df @ cs"
    and "rows (fold (\<lambda>col. set_column col v) cs df) =
         map (\<lambda>ir. (fst ir, snd ir @ replicate (length cs) v)) (rows df)"
proof -
  have "columns (fold (\<lambda>col. set_column col v) cs df) = columns df @ cs \<and>
        rows (fold (\<lambda>col. set_column col v) cs df) =
          map (\<lambda>ir. (fst ir, snd ir @ replicate (length cs) v)) (rows df)"
    using assms
  proof (induction cs arbitrary: df)
    case Nil
    then show ?case by simp
  next
    case (Cons c cs)
    have n: "index_of c (columns df) = None"
      using Cons.prems(2) by (simp add: index_of_None)
    have c1: "columns (set_column c v df) = columns df @ [c]"
      and r1: "rows (set_column c v df) = map (\<lambda>ir. (fst ir, snd ir @ [v])) (rows df)"
      by (simp_all add: set_column_def n)
    have "distinct cs" and "set cs \<inter> set (columns (set_column c v df)) = {}"
      using Cons.prems by (auto simp add: c1)
    from Cons.IH [OF this] show ?case
      by (simp add: c1 r1 comp_def replicate_append_same)
  qed
  then show "columns (fold (\<lambda>col. set_column col v) cs df) = columns df @ cs"
    and "rows (fold (\<lambda>col. set_column col v) cs df) =
         map (\<lambda>ir. (fst ir, snd ir @ replicate (length cs) v)) (rows df)"
    by simp_all
qed

lemma cell_at_map:
  assumes "c \<in> set cols"
  shows "cell_at cols (map f cols) c = f c"
proof -
  from assms obtain j where j: "index_of c cols = Some j"
    by (cases "index_of c cols") (simp_all add: index_of_None)
  from index_of_Some [OF j] show ?thesis
    by (simp add: cell_at_def j)
qed

lemma cell_at_backfilled:
  assumes "length r = length cols" and "distinct ms" and "set ms \<inter> set cols = {}"
  shows "c \<in> set ms \<Longrightarrow> cell_at (cols @ ms) (r @ replicate (length ms) Null) c = Null"
    and "c \<in> set cols \<Longrightarrow> cell_at (cols @ ms) (r @ replicate (length ms) Null) c = cell_at cols r c"
proof -
  show "cell_at (cols @ ms) (r @ replicate (length ms) Null) c = Null" if "c \<in> set ms"
  proof -
    from that obtain j where j: "index_of c ms = Some j"
      by (cases "index_of c ms") (simp_all add: index_of_None)
    from that assms(3) have "c \<notin> set cols" by auto
    with index_of_Some [OF j] assms(1) show ?thesis
      by (simp add: cell_at_def index_of_append j nth_append)
  qed
  show "cell_at (cols @ ms) (r @ replicate (length ms) Null) c = cell_at cols r c" if "c \<in> set cols"
  proof -
    from that obtain j where j: "index_of c cols = Some j"
      by (cases "index_of c cols") (simp_all add: index_of_None)
    with index_of_Some [OF j] assms(1) that show ?thesis
      by (simp add: cell_at_def index_of_append nth_append)
  qed
qed

text \<open>
  What \<open>load_data\<close> does reach when \<^verbatim>\<open>read_csv\<close> returns a frame: each of the four
  columns that the file lacks is in the table, null in every row, and each that the file
  has keeps its cells.
\<close>

lemma load_data_backfills:
  assumes r: "read_csv content [''fecha''] = Inr df0"
  shows "\<exists>df. load_data (Some content) = Inr df
     \<and> map fst (rows df) = map fst (rows df0)
     \<and> (\<forall>c \<in> set COLUMNS. c \<notin> set (columns df0) \<longrightarrow>
           list_all (\<lambda>ir. cell_of df ir c = Null) (rows df))
     \<and> (\<forall>c \<in> set COLUMNS. c \<in> set (columns df0) \<longrightarrow>
           map (\<lambda>ir. cell_of df ir c) (rows df) = map (\<lambda>ir. cell_of df0 ir c) (rows df0))"
proof -
  define ms where "ms = filter (\<lambda>c. c \<notin> set (columns df0)) COLUMNS"
  define df1 where "df1 = fold (\<lambda>col. set_column col Null) ms df0"
  define df where "df = \<lparr>columns = COLUMNS,
      rows = map (\<lambda>ir. (fst ir, map (cell_at (columns df1) (snd ir)) COLUMNS)) (rows df1)\<rparr>"
  have d: "distinct ms" and i: "set ms \<inter> set (columns df0) = {}"
    by (auto simp add: ms_def COLUMNS_def)
  have c1: "columns df1 = columns df0 @ ms"
    and r1: "rows df1 = map (\<lambda>ir. (fst ir, snd ir @ replicate (length ms) Null)) (rows df0)"
    unfolding df1_def by (rule fold_set_column_new [OF d i])+
  have wf: "length (snd ir) = length (columns df0)" if "ir \<in> set (rows df0)" for ir
    using read_csv_wf [OF r] that by (simp add: wf_frame_def list_all_iff)
  have "\<not> list_ex (\<lambda>c. c \<notin> set (columns df1)) COLUMNS"
    by (auto simp add: c1 ms_def list_ex_iff)
  then have "select_columns df1 COLUMNS = Inr df"
    by (simp add: select_columns_def df_def)
  then have l: "load_data (Some content) = Inr df"
    by (simp add: load_data_def r Let_def df1_def ms_def)
  have f: "map fst (rows df) = map fst (rows df0)"
    by (simp add: df_def r1 comp_def)
  have cell: "cell_of df (fst ir, map (cell_at (columns df1) (snd ir @ replicate (length ms) Null)) COLUMNS) c =
      cell_at (columns df0 @ ms) (snd ir @ replicate (length ms) Null) c"
    if "c \<in> set COLUMNS" for ir c
    using that by (simp add: cell_of_def df_def cell_at_map c1)
  have a: "list_all (\<lambda>ir. cell_of df ir c = Null) (rows df)"
    if "c \<in> set COLUMNS" "c \<notin> set (columns df0)" for c
  proof -
    from that have "c \<in> set ms" by (simp add: ms_def)
    then show ?thesis
      using cell [OF that(1)] cell_at_backfilled(1) [OF wf d i]
      by (simp add: df_def r1 list_all_iff c1)
  qed
  have b: "map (\<lambda>ir. cell_of df ir c) (rows df) = map (\<lambda>ir. cell_of df0 ir c) (rows df0)"
    if "c \<in> set COLUMNS" "c \<in> set (columns df0)" for c
    using cell [OF that(1)] cell_at_backfilled(2) [OF wf d i that(2)]
    by (simp add: df_def r1 c1 comp_def cell_of_def [of df0])
  from l f a b show ?thesis by blast
qed

lemma load_data_without_completada:
  "load_data (Some [[''fecha'', ''nivel'', ''descripcion''], [''2024-01-01'', ''1'', ''Plan'']])
     = Inr \<lparr>columns = [''fecha'', ''nivel'', ''descripcion'', ''completada''],
            rows = [(0, [DateC (2024, 1, 1), IntC 1, StrC ''Plan'', Null])]\<rparr>"
  by code_simp

text \<open>
  Claim C4. The claim is that a stored file lacking some of the four columns is loaded
  with the lacking columns present and null in every row, without an error. That holds
  when \<^verbatim>\<open>read_csv\<close> returns, as the lemmas above show. For the file below, which lacks
  the column fecha, \<open>load_data\<close> returns no table: \<^verbatim>\<open>read_csv\<close> raises
  \<^verbatim>\<open>ValueError\<close> for the column named in \<^verbatim>\<open>parse_dates\<close> before the loop over
  \<open>missing_cols\<close> is reached.
\<close>

theorem load_data_without_fecha:
  "load_data (Some [[''nivel'', ''descripcion'', ''completada''], [''1'', ''Plan'', ''False'']])
     = Inl ValueError"
  by code_simp

section \<open>The shape of a loaded table\<close>

lemma cells_of_row:
  assumes "length r = 4"
  shows "map (cell_at COLUMNS r) COLUMNS = r"
proof -
  from assms obtain a b c d where "r = [a, b, c, d]"
    by (auto simp add: length_Suc_conv numeral_eq_Suc)
  then show ?thesis by (simp add: COLUMNS_def cell_at_def)
qed

lemma cell_at_COLUMNS:
  "cell_at COLUMNS r ''fecha'' = r ! 0" "cell_at COLUMNS r ''nivel'' = r ! 1"
  "cell_at COLUMNS r ''descripcion'' = r ! 2" "cell_at COLUMNS r ''completada'' = r ! 3"
  by (simp_all add: cell_at_def COLUMNS_def eval_nat_numeral)

lemma index_of_COLUMNS:
  "index_of ''fecha'' COLUMNS = Some 0" "index_of ''completada'' COLUMNS = Some 3"
  by (simp_all add: COLUMNS_def eval_nat_numeral)

lemma read_csv_labels:
  assumes "read_csv content pd = Inr df"
  shows "map fst (rows df) = [0..<length (rows df)]"
proof (cases content)
  case Nil
  with assms show ?thesis by (simp add: read_csv_def)
next
  case (Cons header body)
  with assms obtain xs where "rows df = enumerate 0 xs"
    by (auto simp add: read_csv_def Let_def split: if_splits)
  then show ?thesis by simp
qed

lemma set_column_labels: "map fst (rows (set_column col v df)) = map fst (rows df)"
  by (simp add: set_column_def comp_def split: option.splits)

lemma fold_set_column_labels:
  "map fst (rows (fold (\<lambda>col. set_column col v) cs df)) = map fst (rows df)"
  by (induction cs arbitrary: df) (simp_all add: set_column_labels)

lemma select_columns_labels:
  assumes "select_columns df cols = Inr t"
  shows "map fst (rows t) = map fst (rows df)"
  using assms by (auto simp add: select_columns_def comp_def split: if_splits)

lemma load_data_shape:
  assumes "load_data st = Inr df"
  shows "columns df = COLUMNS" "\<forall>ir \<in> set (rows df). length (snd ir) = 4"
    "map fst (rows df) = [0..<length (rows df)]"
proof -
  have "columns df = COLUMNS \<and> (\<forall>ir \<in> set (rows df). length (snd ir) = 4) \<and>
        map fst (rows df) = [0..<length (rows df)]"
  proof (cases st)
    case None
    with assms show ?thesis
      by (auto simp add: load_data_def DataFrame_columns_def)
  next
    case (Some content)
    with assms obtain df0 df1 where r: "read_csv content [''fecha''] = Inr df0"
      and f: "df1 = fold (\<lambda>col. set_column col Null) (filter (\<lambda>c. c \<notin> set (columns df0)) COLUMNS) df0"
      and s: "select_columns df1 COLUMNS = Inr df"
      by (auto simp add: load_data_def Let_def split: sum.splits)
    have "map fst (rows df) = map fst (rows df0)"
      using select_columns_labels [OF s] f by (simp add: fold_set_column_labels)
    moreover have "length (rows df) = length (rows df0)"
      using calculation by (metis length_map)
    ultimately have "map fst (rows df) = [0..<length (rows df)]"
      using read_csv_labels [OF r] by simp
    with select_columns_shape [OF s] show ?thesis
      by (simp add: COLUMNS_def)
  qed
  then show "columns df = COLUMNS" "\<forall>ir \<in> set (rows df). length (snd ir) = 4"
    "map fst (rows df) = [0..<length (rows df)]" by simp_all
qed

section \<open>The rows of the selected day\<close>

lemma filter_by_mask: "map fst (filter snd (zip xs (map P xs))) = filter P xs"
  by (induction xs) simp_all

lemma df_today_of_COLUMNS:
  assumes "columns df = COLUMNS"
  shows "df_today_of df d = Inr (df\<lparr>rows := filter (\<lambda>ir. cell_of df ir ''fecha'' = DateC d) (rows df)\<rparr>)"
  using assms
  by (simp add: df_today_of_def mask_today_def boolean_index_def index_of_COLUMNS
                filter_by_mask cell_of_def cell_at_COLUMNS)

lemma view_of_COLUMNS:
  assumes "columns today = COLUMNS"
  shows "view_of today = (if rows today = [] then CreationForm else Checklist)"
  using assms by (simp add: view_of_def empty_def COLUMNS_def)

section \<open>Submitting the form\<close>

lemma DataFrame_new_rows:
  "DataFrame_records (new_rows u) =
     \<lparr>columns = COLUMNS,
      rows = enumerate 0
        [[DateObjC (selected_date u), IntC 1, StrC (t_estrategica u), BoolC False],
         [DateObjC (selected_date u), IntC 2, StrC (t_op1 u), BoolC False],
         [DateObjC (selected_date u), IntC 2, StrC (t_op2 u), BoolC False],
         [DateObjC (selected_date u), IntC 3, StrC (t_micro1 u), BoolC False],
         [DateObjC (selected_date u), IntC 3, StrC (t_micro2 u), BoolC False],
         [DateObjC (selected_date u), IntC 3, StrC (t_micro3 u), BoolC False]]\<rparr>"
  by (simp add: DataFrame_records_def new_rows_def task_row_def COLUMNS_def)

lemma submit_COLUMNS:
  assumes cols: "columns df = COLUMNS" and len: "\<forall>ir \<in> set (rows df). length (snd ir) = 4"
  shows "fst (submit u df st) =
     \<lparr>columns = COLUMNS,
      rows = enumerate 0 (map snd (rows df) @
        [[DateObjC (selected_date u), IntC 1, StrC (t_estrategica u), BoolC False],
         [DateObjC (selected_date u), IntC 2, StrC (t_op1 u), BoolC False],
         [DateObjC (selected_date u), IntC 2, StrC (t_op2 u), BoolC False],
         [DateObjC (selected_date u), IntC 3, StrC (t_micro1 u), BoolC False],
         [DateObjC (selected_date u), IntC 3, StrC (t_micro2 u), BoolC False],
         [DateObjC (selected_date u), IntC 3, StrC (t_micro3 u), BoolC False]])\<rparr>"
    and "snd (submit u df st) = Some (to_csv (fst (submit u df st)))"
proof -
  have a: "map (\<lambda>ir. reindex_row COLUMNS COLUMNS (snd ir)) (rows df) = map snd (rows df)"
    using len by (simp add: reindex_row_def cells_of_row)
  have b: "COLUMNS @ filter (\<lambda>c. c \<notin> set COLUMNS) COLUMNS = COLUMNS"
    by simp
  show "fst (submit u df st) =
     \<lparr>columns = COLUMNS,
      rows = enumerate 0 (map snd (rows df) @
        [[DateObjC (selected_date u), IntC 1, StrC (t_estrategica u), BoolC False],
         [DateObjC (selected_date u), IntC 2, StrC (t_op1 u), BoolC False],
         [DateObjC (selected_date u), IntC 2, StrC (t_op2 u), BoolC False],
         [DateObjC (selected_date u), IntC 3, StrC (t_micro1 u), BoolC False],
         [DateObjC (selected_date u), IntC 3, StrC (t_micro2 u), BoolC False],
         [DateObjC (selected_date u), IntC 3, StrC (t_micro3 u), BoolC False]])\<rparr>"
    unfolding submit_def Let_def fst_conv concat_frames_def DataFrame_new_rows cols
    by (simp only: frame.simps a b)
       (simp add: reindex_row_def cells_of_row enumerate_eq_zip)
  show "snd (submit u df st) = Some (to_csv (fst (submit u df st)))"
    by (simp add: submit_def Let_def save_data_def)
qed

lemma run_creation_form:
  assumes load: "load_data st = Inr df"
    and none: "list_all (\<lambda>ir. cell_of df ir ''fecha'' \<noteq> DateC (selected_date u)) (rows df)"
    and sub: "submitted u"
  shows "run st u =
     (snd (submit u df st),
      Inr \<lparr>page_tasks = fst (submit u df st), page_view = CreationForm, page_sidebar = NotRendered\<rparr>)"
proof -
  have cols: "columns df = COLUMNS" using load by (rule load_data_shape)
  have "filter (\<lambda>ir. cell_of df ir ''fecha'' = DateC (selected_date u)) (rows df) = []"
    using none by (simp add: list_all_iff filter_empty_conv)
  then have today: "df_today_of df (selected_date u) = Inr (df\<lparr>rows := []\<rparr>)"
    using df_today_of_COLUMNS [OF cols, of "selected_date u"] by simp
  have "view_of (df\<lparr>rows := []\<rparr>) = CreationForm"
    by (simp add: view_of_def empty_def)
  with load today sub show ?thesis
    by (simp add: run_def split_beta)
qed

text \<open>
  Claim C2. When the table that was loaded has no row of the selected date and the form is
  submitted, the run ends with a table that keeps the loaded rows and has exactly six
  more after them, all of the selected date (the \<^verbatim>\<open>datetime.date\<close> of the date
  input) and of the levels 1, 2, 2, 3, 3, 3 in this order; the store then holds this table
  as \<open>to_csv\<close> writes it.
\<close>

theorem submit_appends_six_rows:
  assumes load: "load_data st = Inr df"
    and none: "list_all (\<lambda>ir. cell_of df ir ''fecha'' \<noteq> DateC (selected_date u)) (rows df)"
    and sub: "submitted u"
  shows "\<exists>df'. run st u =
           (Some (to_csv df'),
            Inr \<lparr>page_tasks = df', page_view = CreationForm, page_sidebar = NotRendered\<rparr>)
      \<and> columns df' = columns df
      \<and> take (length (rows df)) (rows df') = rows df
      \<and> map (\<lambda>ir. (cell_of df' ir ''fecha'', cell_of df' ir ''nivel''))
            (drop (length (rows df)) (rows df'))
         = [(DateObjC (selected_date u), IntC 1), (DateObjC (selected_date u), IntC 2),
            (DateObjC (selected_date u), IntC 2), (DateObjC (selected_date u), IntC 3),
            (DateObjC (selected_date u), IntC 3), (DateObjC (selected_date u), IntC 3)]"
proof -
  define df' where "df' = fst (submit u df st)"
  have cols: "columns df = COLUMNS" and len: "\<forall>ir \<in> set (rows df). length (snd ir) = 4"
    and lab: "map fst (rows df) = [0..<length (rows df)]"
    using load by (rule load_data_shape)+
  note s = submit_COLUMNS [OF cols len, of u st]
  have r: "run st u =
      (Some (to_csv df'), Inr \<lparr>page_tasks = df', page_view = CreationForm, page_sidebar = NotRendered\<rparr>)"
    using run_creation_form [OF load none sub] s(2) by (simp add: df'_def)
  have c: "columns df' = COLUMNS" using s(1) by (simp add: df'_def)
  have rows': "rows df' = rows df @ enumerate (length (rows df))
        [[DateObjC (selected_date u), IntC 1, StrC (t_estrategica u), BoolC False],
         [DateObjC (selected_date u), IntC 2, StrC (t_op1 u), BoolC False],
         [DateObjC (selected_date u), IntC 2, StrC (t_op2 u), BoolC False],
         [DateObjC (selected_date u), IntC 3, StrC (t_micro1 u), BoolC False],
         [DateObjC (selected_date u), IntC 3, StrC (t_micro2 u), BoolC False],
         [DateObjC (selected_date u), IntC 3, StrC (t_micro3 u), BoolC False]]"
    using s(1) enumerate_labels [OF lab] by (simp add: df'_def enumerate_append_eq)
  have "take (length (rows df)) (rows df') = rows df"
    by (simp add: rows')
  moreover have "map (\<lambda>ir. (cell_of df' ir ''fecha'', cell_of df' ir ''nivel''))
            (drop (length (rows df)) (rows df'))
         = [(DateObjC (selected_date u), IntC 1), (DateObjC (selected_date u), IntC 2),
            (DateObjC (selected_date u), IntC 2), (DateObjC (selected_date u), IntC 3),
            (DateObjC (selected_date u), IntC 3), (DateObjC (selected_date u), IntC 3)]"
    by (simp add: rows' cell_of_def c cell_at_COLUMNS)
  ultimately show ?thesis using r c cols by auto
qed

lemma load_ex_file: "load_data (Some ex_file) = Inr ex_table"
  by code_simp

theorem submit_appends_six_rows_witness:
  "load_data (Some ex_file) = Inr ex_table
   \<and> list_all (\<lambda>ir. cell_of ex_table ir ''fecha'' \<noteq> DateC (selected_date ex_submit)) (rows ex_table)
   \<and> submitted ex_submit
   \<and> (\<exists>df'. run (Some ex_file) ex_submit =
           (Some (to_csv df'),
            Inr \<lparr>page_tasks = df', page_view = CreationForm, page_sidebar = NotRendered\<rparr>)
      \<and> columns df' = columns ex_table
      \<and> take (length (rows ex_table)) (rows df') = rows ex_table
      \<and> map (\<lambda>ir. (cell_of df' ir ''fecha'', cell_of df' ir ''nivel''))
            (drop (length (rows ex_table)) (rows df'))
         = [(DateObjC (selected_date ex_submit), IntC 1), (DateObjC (selected_date ex_submit), IntC 2),
            (DateObjC (selected_date ex_submit), IntC 2), (DateObjC (selected_date ex_submit), IntC 3),
            (DateObjC (selected_date ex_submit), IntC 3), (DateObjC (selected_date ex_submit), IntC 3)])"
proof -
  have n: "list_all (\<lambda>ir. cell_of ex_table ir ''fecha'' \<noteq> DateC (selected_date ex_submit)) (rows ex_table)"
    by code_simp
  have s: "submitted ex_submit" by (simp add: ex_submit_def)
  from submit_appends_six_rows [OF load_ex_file n s] load_ex_file n s show ?thesis
    by (intro conjI)
qed

text \<open>
  Claim C10. Whatever the six texts of the form, each of the six rows that a submission
  appends to the loaded table has the flag completada set to \<open>False\<close>.
\<close>

theorem new_rows_not_completed:
  assumes "load_data st = Inr df"
  shows "length (rows (fst (submit u df st))) = length (rows df) + 6
     \<and> list_all (\<lambda>ir. cell_of (fst (submit u df st)) ir ''completada'' = BoolC False)
          (drop (length (rows df)) (rows (fst (submit u df st))))"
proof -
  have cols: "columns df = COLUMNS" and len: "\<forall>ir \<in> set (rows df). length (snd ir) = 4"
    using assms by (rule load_data_shape)+
  note s = submit_COLUMNS(1) [OF cols len, of u st]
  have c: "columns (fst (submit u df st)) = COLUMNS" by (simp add: s)
  have "drop (length (rows df)) (rows (fst (submit u df st))) =
      enumerate (length (rows df))
        [[DateObjC (selected_date u), IntC 1, StrC (t_estrategica u), BoolC False],
         [DateObjC (selected_date u), IntC 2, StrC (t_op1 u), BoolC False],
         [DateObjC (selected_date u), IntC 2, StrC (t_op2 u), BoolC False],
         [DateObjC (selected_date u), IntC 3, StrC (t_micro1 u), BoolC False],
         [DateObjC (selected_date u), IntC 3, StrC (t_micro2 u), BoolC False],
         [DateObjC (selected_date u), IntC 3, StrC (t_micro3 u), BoolC False]]"
    by (simp add: s enumerate_append_eq)
  then have "list_all (\<lambda>ir. cell_of (fst (submit u df st)) ir ''completada'' = BoolC False)
          (drop (length (rows df)) (rows (fst (submit u df st))))"
    by (simp add: cell_of_def c cell_at_COLUMNS)
  moreover have "length (rows (fst (submit u df st))) = length (rows df) + 6"
    by (simp add: s)
  ultimately show ?thesis by simp
qed

theorem new_rows_not_completed_witness:
  "load_data (Some ex_file) = Inr ex_table
   \<and> length (rows (fst (submit ex_submit ex_table (Some ex_file)))) = length (rows ex_table) + 6
   \<and> list_all (\<lambda>ir. cell_of (fst (submit ex_submit ex_table (Some ex_file))) ir ''completada'' = BoolC False)
          (drop (length (rows ex_table)) (rows (fst (submit ex_submit ex_table (Some ex_file)))))"
  using new_rows_not_completed [OF load_ex_file, of ex_submit] load_ex_file
  by (intro conjI) simp_all

section \<open>The branch taken for the selected date\<close>

text \<open>
  Claim C5. For the table that was loaded and the selected date, the rows of the day are
  the rows whose fecha is that date; when there is none the script takes the branch of
  the creation form, and when there is one it takes the branch of the checklist. A run
  that shows a page shows the page of this branch.
\<close>

theorem view_by_date:
  assumes "load_data st = Inr df"
  shows "\<exists>today. df_today_of df (selected_date u) = Inr today
     \<and> rows today = filter (\<lambda>ir. cell_of df ir ''fecha'' = DateC (selected_date u)) (rows df)
     \<and> view_of today = (if rows today = [] then CreationForm else Checklist)
     \<and> (case snd (run st u) of Inl e \<Rightarrow> True | Inr pg \<Rightarrow> page_view pg = view_of today)"
proof -
  define today where
    "today = df\<lparr>rows := filter (\<lambda>ir. cell_of df ir ''fecha'' = DateC (selected_date u)) (rows df)\<rparr>"
  have cols: "columns df = COLUMNS" using assms by (rule load_data_shape)
  have t: "df_today_of df (selected_date u) = Inr today"
    using df_today_of_COLUMNS [OF cols] by (simp add: today_def)
  have v: "view_of today = (if rows today = [] then CreationForm else Checklist)"
    by (rule view_of_COLUMNS) (simp add: today_def cols)
  have "case snd (run st u) of Inl e \<Rightarrow> True | Inr pg \<Rightarrow> page_view pg = view_of today"
    using assms t
    by (cases "view_of today")
       (simp_all add: run_def split_beta split: sum.splits)
  moreover have "rows today = filter (\<lambda>ir. cell_of df ir ''fecha'' = DateC (selected_date u)) (rows df)"
    by (simp add: today_def)
  ultimately show ?thesis using t v by blast
qed

theorem view_by_date_witness:
  "load_data (Some ex_file) = Inr ex_table
   \<and> (\<exists>today. df_today_of ex_table (selected_date ex_tick) = Inr today
     \<and> rows today = filter (\<lambda>ir. cell_of ex_table ir ''fecha'' = DateC (selected_date ex_tick)) (rows ex_table)
     \<and> view_of today = (if rows today = [] then CreationForm else Checklist)
     \<and> (case snd (run (Some ex_file) ex_tick) of Inl e \<Rightarrow> True | Inr pg \<Rightarrow> page_view pg = view_of today))"
  using view_by_date [OF load_ex_file, of ex_tick] load_ex_file
  by (intro conjI)

section \<open>Ticking checkboxes\<close>

lemma set_at_completada:
  assumes "columns df = COLUMNS"
  shows "set_at idx ''completada'' v df =
     df\<lparr>rows := map (\<lambda>ir. if fst ir = idx then (fst ir, (snd ir)[3 := v]) else ir)
        (if list_ex (\<lambda>ir. fst ir = idx) (rows df) then rows df
         else rows df @ [(idx, replicate 4 Null)])\<rparr>"
proof -
  have "''completada'' \<in> set COLUMNS" "length COLUMNS = 4" by (simp_all add: COLUMNS_def)
  then show ?thesis
    using assms by (simp add: set_at_def Let_def index_of_COLUMNS)
qed

lemma set_at_keys:
  assumes "columns df = COLUMNS"
  shows "columns (set_at idx ''completada'' v df) = COLUMNS"
    and "prefix (map (entry_key df) (rows df))
           (map (entry_key (set_at idx ''completada'' v df)) (rows (set_at idx ''completada'' v df)))"
proof -
  show c: "columns (set_at idx ''completada'' v df) = COLUMNS"
    using assms by (simp add: set_at_completada)
  have k: "entry_key d = (\<lambda>ir. (snd ir ! 0, snd ir ! 1, snd ir ! 2))" if "columns d = COLUMNS" for d
    using that by (intro ext) (simp add: entry_key_def cell_of_def cell_at_COLUMNS)
  have "map (entry_key (set_at idx ''completada'' v df)) (rows (set_at idx ''completada'' v df)) =
        map (entry_key df) (rows df) @
        (if list_ex (\<lambda>ir. fst ir = idx) (rows df) then []
         else [entry_key df (idx, (replicate 4 Null)[3 := v])])"
    unfolding k [OF c] k [OF assms]
    by (simp add: set_at_completada [OF assms] comp_def)
  then show "prefix (map (entry_key df) (rows df))
           (map (entry_key (set_at idx ''completada'' v df)) (rows (set_at idx ''completada'' v df)))"
    by (simp add: prefix_def)
qed

lemma toggle_keys:
  assumes "columns (fst s) = COLUMNS"
  shows "columns (fst (toggle chk j ir s)) = COLUMNS"
    and "prefix (map (entry_key (fst s)) (rows (fst s)))
           (map (entry_key (fst (toggle chk j ir s))) (rows (fst (toggle chk j ir s))))"
  using set_at_keys [OF assms] assms by (simp_all add: toggle_def Let_def)

lemma fold_toggle_keys:
  assumes "columns (fst s) = COLUMNS"
  shows "columns (fst (fold (toggle chk j) today s)) = COLUMNS \<and>
         prefix (map (entry_key (fst s)) (rows (fst s)))
           (map (entry_key (fst (fold (toggle chk j) today s)))
              (rows (fst (fold (toggle chk j) today s))))"
  using assms
proof (induction today arbitrary: s)
  case Nil
  then show ?case by simp
next
  case (Cons ir today)
  have c: "columns (fst (toggle chk j ir s)) = COLUMNS"
    using Cons.prems by (rule toggle_keys)
  have p: "prefix (map (entry_key (fst s)) (rows (fst s)))
           (map (entry_key (fst (toggle chk j ir s))) (rows (fst (toggle chk j ir s))))"
    using Cons.prems by (rule toggle_keys)
  from Cons.IH [OF c] p show ?case
    by (auto intro: prefix_order.trans)
qed

lemma fold_toggle_rows:
  assumes "columns df = COLUMNS"
    and "\<forall>x \<in> set today. list_ex (\<lambda>ir. fst ir = fst x) (rows df)"
  shows "fold (toggle chk 3) today (df, st) =
     (df\<lparr>rows := map (\<lambda>ir. if fst ir \<in> fst ` {x \<in> set today. differs (chk (fst x)) (snd x ! 3)}
                              then (fst ir, (snd ir)[3 := BoolC (chk (fst ir))]) else ir) (rows df)\<rparr>,
      if {x \<in> set today. differs (chk (fst x)) (snd x ! 3)} = {} then st
      else Some (to_csv (df\<lparr>rows := map (\<lambda>ir. if fst ir \<in> fst ` {x \<in> set today. differs (chk (fst x)) (snd x ! 3)}
                              then (fst ir, (snd ir)[3 := BoolC (chk (fst ir))]) else ir) (rows df)\<rparr>)))"
  using assms
proof (induction today arbitrary: df st)
  case Nil
  then show ?case by simp
next
  case (Cons x today)
  define T where "T = {y \<in> set today. differs (chk (fst y)) (snd y ! 3)}"
  define G where "G = (\<lambda>S (ir :: nat \<times> cell list).
      if fst ir \<in> S then (fst ir, (snd ir)[3 := BoolC (chk (fst ir))]) else ir)"
  have l: "\<forall>y \<in> set today. list_ex (\<lambda>ir. fst ir = fst y) (rows df)"
    using Cons.prems(2) by simp
  show ?case
  proof (cases "differs (chk (fst x)) (snd x ! 3)")
    case False
    then have s: "{y \<in> set (x # today). differs (chk (fst y)) (snd y ! 3)} = T"
      by (auto simp add: T_def)
    have "fold (toggle chk 3) (x # today) (df, st) = fold (toggle chk 3) today (df, st)"
      using False by (simp add: toggle_def Let_def)
    also have "\<dots> = (df\<lparr>rows := map (G (fst ` T)) (rows df)\<rparr>,
        if T = {} then st else Some (to_csv (df\<lparr>rows := map (G (fst ` T)) (rows df)\<rparr>)))"
      unfolding T_def G_def by (rule Cons.IH [OF Cons.prems(1) l])
    finally show ?thesis unfolding s G_def .
  next
    case True
    define df1 where "df1 = df\<lparr>rows := map (G {fst x}) (rows df)\<rparr>"
    define D where "D = df\<lparr>rows := map (G (fst ` insert x T)) (rows df)\<rparr>"
    have s: "{y \<in> set (x # today). differs (chk (fst y)) (snd y ! 3)} = insert x T"
      using True by (auto simp add: T_def)
    have ex: "list_ex (\<lambda>ir. fst ir = fst x) (rows df)" using Cons.prems(2) by simp
    have "set_at (fst x) ''completada'' (BoolC (chk (fst x))) df = df1"
      using ex by (simp add: set_at_completada [OF Cons.prems(1)] df1_def G_def cong: map_cong)
    then have step: "fold (toggle chk 3) (x # today) (df, st) =
        fold (toggle chk 3) today (df1, Some (to_csv df1))"
      using True by (simp add: toggle_def Let_def save_data_def)
    have c1: "columns df1 = COLUMNS" using Cons.prems(1) by (simp add: df1_def)
    have lx: "list_ex (\<lambda>ir. fst ir = a) xs \<longleftrightarrow> a \<in> set (map fst xs)"
      for a :: nat and xs :: "(nat \<times> cell list) list"
      by (auto simp add: list_ex_iff)
    have "map fst (rows df1) = map fst (rows df)"
      by (simp add: df1_def G_def)
    then have l1: "\<forall>y \<in> set today. list_ex (\<lambda>ir. fst ir = fst y) (rows df1)"
      using l by (simp only: lx)
    have ih: "fold (toggle chk 3) today (df1, Some (to_csv df1)) =
        (df1\<lparr>rows := map (G (fst ` T)) (rows df1)\<rparr>,
         if T = {} then Some (to_csv df1)
         else Some (to_csv (df1\<lparr>rows := map (G (fst ` T)) (rows df1)\<rparr>)))"
      unfolding T_def G_def by (rule Cons.IH [OF c1 l1])
    have "map (G (fst ` T)) (rows df1) = map (G (fst ` insert x T)) (rows df)"
      by (auto simp add: df1_def G_def)
    then have e: "df1\<lparr>rows := map (G (fst ` T)) (rows df1)\<rparr> = D"
      by (simp add: df1_def D_def)
    have e0: "df1 = D" if "T = {}"
      using that by (simp add: df1_def D_def)
    have "fold (toggle chk 3) (x # today) (df, st) = (D, Some (to_csv D))"
      using step ih e e0 by (cases "T = {}") simp_all
    then have "fold (toggle chk 3) (x # today) (df, st) =
        (D, if insert x T = {} then st else Some (to_csv D))"
      by simp
    then show ?thesis unfolding s D_def G_def .
  qed
qed

lemma checklist_COLUMNS:
  assumes "columns today = COLUMNS"
    and "list_all (\<lambda>ir. is_bool (cell_of today ir ''completada'')) (rows today)"
  shows "checklist chk today df st = Inr (fold (toggle chk 3) (rows today) (df, st))"
proof -
  have "\<not> list_ex (\<lambda>ir. \<not> is_bool (snd ir ! 3)) (rows today)"
    using assms by (simp add: list_all_iff list_ex_iff cell_of_def cell_at_COLUMNS)
  then show ?thesis
    using assms(1) by (simp add: checklist_def index_of_COLUMNS)
qed

text \<open>
  Claim C3. In a table that was loaded and where the flags completada of the selected day
  are booleans, the loop over the rows of that day changes a row only when the state of its
  checkbox differs from its flag, and then only the cell of completada (the cell at
  position 3), which becomes the state of the checkbox: the index labels, the cells of
  fecha, nivel and descripcion of that row and all cells of every other row stay as they
  were. The store is written when a row changed.
\<close>

theorem toggle_changes_only_flag:
  assumes load: "load_data st0 = Inr df"
    and bools: "list_all (\<lambda>ir. is_bool (cell_of df ir ''completada''))
                  (filter (\<lambda>ir. cell_of df ir ''fecha'' = DateC d) (rows df))"
  shows "\<exists>today df' st'. df_today_of df d = Inr today
      \<and> checklist chk today df st = Inr (df', st')
      \<and> columns df' = columns df
      \<and> rows df' =
          map (\<lambda>ir. if cell_of df ir ''fecha'' = DateC d
                          \<and> differs (chk (fst ir)) (cell_of df ir ''completada'')
                     then (fst ir, (snd ir)[3 := BoolC (chk (fst ir))]) else ir) (rows df)
      \<and> st' = (if list_ex (\<lambda>ir. cell_of df ir ''fecha'' = DateC d
                          \<and> differs (chk (fst ir)) (cell_of df ir ''completada'')) (rows df)
               then Some (to_csv df') else st)"
proof -
  define P where "P = (\<lambda>ir :: nat \<times> cell list. cell_of df ir ''fecha'' = DateC d)"
  define today where "today = df\<lparr>rows := filter P (rows df)\<rparr>"
  define T where "T = {x \<in> set (rows today). differs (chk (fst x)) (snd x ! 3)}"
  define df' where "df' = df\<lparr>rows := map (\<lambda>ir. if fst ir \<in> fst ` T
        then (fst ir, (snd ir)[3 := BoolC (chk (fst ir))]) else ir) (rows df)\<rparr>"
  have cols: "columns df = COLUMNS" and lab: "map fst (rows df) = [0..<length (rows df)]"
    using load by (rule load_data_shape)+
  have t: "df_today_of df d = Inr today"
    using df_today_of_COLUMNS [OF cols] by (simp add: today_def P_def)
  have ct: "columns today = COLUMNS" by (simp add: today_def cols)
  have nf: "list_all (\<lambda>ir. is_bool (cell_of today ir ''completada'')) (rows today)"
    using bools by (simp add: today_def P_def cell_of_def)
  have ex: "\<forall>x \<in> set (rows today). list_ex (\<lambda>ir. fst ir = fst x) (rows df)"
    by (force simp add: today_def list_ex_iff)
  have c: "checklist chk today df st =
      Inr (df', if T = {} then st else Some (to_csv df'))"
    unfolding checklist_COLUMNS [OF ct nf] df'_def T_def
    by (simp only: fold_toggle_rows [OF cols ex])
  have "distinct (map fst (rows df))" by (simp add: lab)
  then have inj: "inj_on fst (set (rows df))" by (simp add: distinct_map)
  have mem: "fst ir \<in> fst ` T \<longleftrightarrow> P ir \<and> differs (chk (fst ir)) (cell_of df ir ''completada'')"
    if "ir \<in> set (rows df)" for ir
  proof
    assume "fst ir \<in> fst ` T"
    then obtain x where x: "x \<in> T" "fst x = fst ir" by auto
    then have "x \<in> set (rows df)" by (simp add: T_def today_def)
    with inj that x(2) have "x = ir" by (auto dest: inj_onD)
    with x(1) show "P ir \<and> differs (chk (fst ir)) (cell_of df ir ''completada'')"
      by (simp add: T_def today_def cell_of_def cols cell_at_COLUMNS)
  next
    assume "P ir \<and> differs (chk (fst ir)) (cell_of df ir ''completada'')"
    with that have "ir \<in> T"
      by (simp add: T_def today_def cell_of_def cols cell_at_COLUMNS)
    then show "fst ir \<in> fst ` T" by (rule imageI)
  qed
  have r: "rows df' =
      map (\<lambda>ir. if P ir \<and> differs (chk (fst ir)) (cell_of df ir ''completada'')
                 then (fst ir, (snd ir)[3 := BoolC (chk (fst ir))]) else ir) (rows df)"
    using mem by (simp add: df'_def cong: map_cong)
  have e: "T = {} \<longleftrightarrow>
      \<not> list_ex (\<lambda>ir. P ir \<and> differs (chk (fst ir)) (cell_of df ir ''completada'')) (rows df)"
  proof -
    have "T = {x \<in> set (rows df). P x \<and> differs (chk (fst x)) (cell_of df x ''completada'')}"
      by (auto simp add: T_def today_def cell_of_def cols cell_at_COLUMNS)
    then show ?thesis by (auto simp add: list_ex_iff)
  qed
  have c': "checklist chk today df st =
      Inr (df', if list_ex (\<lambda>ir. P ir \<and> differs (chk (fst ir)) (cell_of df ir ''completada'')) (rows df)
                then Some (to_csv df') else st)"
    using c e by simp
  have "columns df' = columns df" by (simp add: df'_def)
  with t c' r show ?thesis unfolding P_def by blast
qed

theorem toggle_changes_only_flag_witness:
  "load_data (Some ex_file) = Inr ex_table
   \<and> list_all (\<lambda>ir. is_bool (cell_of ex_table ir ''completada''))
         (filter (\<lambda>ir. cell_of ex_table ir ''fecha'' = DateC (selected_date ex_tick)) (rows ex_table))
   \<and> (\<exists>today df' st'. df_today_of ex_table (selected_date ex_tick) = Inr today
      \<and> checklist (checkbox ex_tick) today ex_table (Some ex_file) = Inr (df', st')
      \<and> columns df' = columns ex_table
      \<and> rows df' =
          map (\<lambda>ir. if cell_of ex_table ir ''fecha'' = DateC (selected_date ex_tick)
                          \<and> differs (checkbox ex_tick (fst ir)) (cell_of ex_table ir ''completada'')
                     then (fst ir, (snd ir)[3 := BoolC (checkbox ex_tick (fst ir))]) else ir)
            (rows ex_table)
      \<and> st' = (if list_ex (\<lambda>ir. cell_of ex_table ir ''fecha'' = DateC (selected_date ex_tick)
                          \<and> differs (checkbox ex_tick (fst ir)) (cell_of ex_table ir ''completada''))
                     (rows ex_table)
               then Some (to_csv df') else Some ex_file))"
proof -
  have n: "list_all (\<lambda>ir. is_bool (cell_of ex_table ir ''completada''))
         (filter (\<lambda>ir. cell_of ex_table ir ''fecha'' = DateC (selected_date ex_tick)) (rows ex_table))"
    by code_simp
  from toggle_changes_only_flag [OF load_ex_file n, of "checkbox ex_tick" "Some ex_file"]
    load_ex_file n show ?thesis
    by (intro conjI)
qed

lemma run_ex_tick:
  "run (Some ex_file) ex_tick =
     (Some [[''fecha'', ''nivel'', ''descripcion'', ''completada''],
            [''2024-01-01'', ''1'', ''Plan'', ''True'']],
      Inr \<lparr>page_tasks =
             \<lparr>columns = [''fecha'', ''nivel'', ''descripcion'', ''completada''],
              rows = [(0, [DateC (2024, 1, 1), IntC 1, StrC ''Plan'', BoolC True])]\<rparr>,
            page_view = Checklist,
            page_sidebar = History
             \<lparr>columns = [''fecha'', ''nivel'', ''descripcion'', ''completada''],
              rows = [(0, [DateC (2024, 1, 1), IntC 1, StrC ''Plan'', BoolC True])]\<rparr>\<rparr>)"
  by code_simp

section \<open>No row is deleted\<close>

lemma entry_key_COLUMNS:
  assumes "columns d = COLUMNS"
  shows "entry_key d = (\<lambda>ir. (snd ir ! 0, snd ir ! 1, snd ir ! 2))"
  using assms by (intro ext) (simp add: entry_key_def cell_of_def cell_at_COLUMNS)

lemma submit_keys:
  assumes cols: "columns df = COLUMNS" and len: "\<forall>ir \<in> set (rows df). length (snd ir) = 4"
  shows "prefix (map (entry_key df) (rows df))
           (map (entry_key (fst (submit u df st))) (rows (fst (submit u df st))))"
proof -
  note s = submit_COLUMNS(1) [OF cols len, of u st]
  have c: "columns (fst (submit u df st)) = COLUMNS" by (simp add: s)
  have m: "map (\<lambda>ir. (snd ir ! 0, snd ir ! 1, snd ir ! 2)) (enumerate n xs) =
      map (\<lambda>r. (r ! 0, r ! 1, r ! 2)) xs" for n and xs :: "cell list list"
    by (induction xs arbitrary: n) simp_all
  have "map (entry_key (fst (submit u df st))) (rows (fst (submit u df st))) =
      map (entry_key df) (rows df) @
      map (\<lambda>r. (r ! 0, r ! 1, r ! 2))
        [[DateObjC (selected_date u), IntC 1, StrC (t_estrategica u), BoolC False],
         [DateObjC (selected_date u), IntC 2, StrC (t_op1 u), BoolC False],
         [DateObjC (selected_date u), IntC 2, StrC (t_op2 u), BoolC False],
         [DateObjC (selected_date u), IntC 3, StrC (t_micro1 u), BoolC False],
         [DateObjC (selected_date u), IntC 3, StrC (t_micro2 u), BoolC False],
         [DateObjC (selected_date u), IntC 3, StrC (t_micro3 u), BoolC False]]"
    unfolding entry_key_COLUMNS [OF c] entry_key_COLUMNS [OF cols]
    by (simp only: s frame.simps m map_append map_map comp_def)
  then show ?thesis by (simp only: prefix_def) blast
qed

lemma checklist_keys:
  assumes "columns df = COLUMNS" and "checklist chk today df st = Inr (df', st')"
  shows "prefix (map (entry_key df) (rows df)) (map (entry_key df') (rows df'))"
proof (cases "rows today = []")
  case True
  with assms(2) show ?thesis by (simp add: checklist_def)
next
  case False
  with assms(2) obtain j where "fold (toggle chk j) (rows today) (df, st) = (df', st')"
    by (auto simp add: checklist_def split: option.splits if_splits)
  then have "df' = fst (fold (toggle chk j) (rows today) (df, st))"
    by simp
  with fold_toggle_keys [of "(df, st)" chk j "rows today"] assms(1) show ?thesis
    by simp
qed

text \<open>
  Claim C8. Neither transition deletes a row. The rows of the loaded table, taken as
  (fecha, nivel, descripcion), are a prefix of the rows of the table after a submission,
  and of the rows of the table after the loop over any checkboxes (3 being the position
  of completada); so they are for the table of every page that a run shows.
\<close>

theorem rows_never_deleted:
  assumes load: "load_data st = Inr df"
  shows "prefix (map (entry_key df) (rows df))
           (map (entry_key (fst (submit u df st))) (rows (fst (submit u df st))))
     \<and> prefix (map (entry_key df) (rows df))
           (map (entry_key (fst (fold (toggle chk 3) today (df, st))))
              (rows (fst (fold (toggle chk 3) today (df, st)))))
     \<and> (case snd (run st u) of
          Inl e \<Rightarrow> True
        | Inr pg \<Rightarrow> prefix (map (entry_key df) (rows df))
                     (map (entry_key (page_tasks pg)) (rows (page_tasks pg))))"
proof -
  have cols: "columns df = COLUMNS" and len: "\<forall>ir \<in> set (rows df). length (snd ir) = 4"
    using load by (rule load_data_shape)+
  have a: "prefix (map (entry_key df) (rows df))
           (map (entry_key (fst (submit u df st))) (rows (fst (submit u df st))))"
    using cols len by (rule submit_keys)
  have b: "prefix (map (entry_key df) (rows df))
           (map (entry_key (fst (fold (toggle chk 3) today (df, st))))
              (rows (fst (fold (toggle chk 3) today (df, st)))))"
    using fold_toggle_keys [of "(df, st)" chk 3 today] cols by simp
  have c: "case snd (run st u) of
          Inl e \<Rightarrow> True
        | Inr pg \<Rightarrow> prefix (map (entry_key df) (rows df))
                     (map (entry_key (page_tasks pg)) (rows (page_tasks pg)))"
  proof (cases "snd (run st u)")
    case (Inl e)
    then show ?thesis by simp
  next
    case (Inr pg)
    have "page_tasks pg = df \<or> page_tasks pg = fst (submit u df st)
        \<or> (\<exists>td s'. checklist (checkbox u) td df st = Inr (page_tasks pg, s'))"
      using Inr load
      by (auto simp add: run_def split_beta split: sum.splits view.splits if_splits)
    with a checklist_keys [OF cols] have "prefix (map (entry_key df) (rows df))
                     (map (entry_key (page_tasks pg)) (rows (page_tasks pg)))"
      by auto
    with Inr show ?thesis by simp
  qed
  from a b c show ?thesis by (intro conjI)
qed

theorem rows_never_deleted_witness:
  "load_data (Some ex_file) = Inr ex_table
   \<and> prefix (map (entry_key ex_table) (rows ex_table))
           (map (entry_key (fst (submit ex_submit ex_table (Some ex_file))))
              (rows (fst (submit ex_submit ex_table (Some ex_file)))))
   \<and> prefix (map (entry_key ex_table) (rows ex_table))
           (map (entry_key (fst (fold (toggle (checkbox ex_tick) 3) (rows ex_table) (ex_table, Some ex_file))))
              (rows (fst (fold (toggle (checkbox ex_tick) 3) (rows ex_table) (ex_table, Some ex_file)))))
   \<and> (case snd (run (Some ex_file) ex_tick) of
          Inl e \<Rightarrow> True
        | Inr pg \<Rightarrow> prefix (map (entry_key ex_table) (rows ex_table))
                     (map (entry_key (page_tasks pg)) (rows (page_tasks pg))))"
proof -
  note t = rows_never_deleted [OF load_ex_file]
  from t [of ex_submit "checkbox ex_tick" "rows ex_table", THEN conjunct1]
    t [of ex_tick "checkbox ex_tick" "rows ex_table", THEN conjunct2]
    load_ex_file
  show ?thesis by (intro conjI) simp_all
qed

section \<open>The history\<close>






lemma history_ex_history:
  "history ex_history =
     Inr (History \<lparr>columns = [''fecha'', ''nivel'', ''descripcion'', ''completada''],
                   rows = [(1, [DateC (2024, 1, 3), IntC 1, StrC ''C'', BoolC False]),
                           (2, [DateC (2024, 1, 2), IntC 2, StrC ''B'', BoolC True]),
                           (0, [DateC (2024, 1, 1), IntC 1, StrC ''A'', BoolC True]),
                           (3, [Null, IntC 3, StrC ''D'', BoolC False])]\<rparr>)"
  by code_simp


end
